theory Spec2Isabelle
  imports Main
begin

section \<open>Values shared by the whole program\<close>

text \<open>
  A Python \<open>str\<close> is a sequence of Unicode code points, so it is modelled as a list of
  naturals; \<open>asc\<close> turns an ASCII literal into such a string.  Text outside ASCII
  (the Russian messages of the bot) is written as its code points.
\<close>

type_synonym pystr = "nat list"

definition asc :: "string \<Rightarrow> pystr" where
  "asc s = map of_char s"

text \<open>
  Every exception the modelled code can raise is a value.  \<open>RuntimeError\<close> carries its
  message, as the source builds it; the exceptions of the HTTP library carry the text
  the library gives them.
\<close>

datatype py_error =
    OperationalError
  | IntegrityError
  | UnicodeDecodeError
  | EmptyDataError
  | ParserError
  | ValueError
  | AttributeError
  | TypeError
  | KeyError
  | IndexError
  | RuntimeError pystr
  | RequestException pystr

definition ebind :: "py_error + 'a \<Rightarrow> ('a \<Rightarrow> py_error + 'b) \<Rightarrow> py_error + 'b" where
  "ebind m f = (case m of Inl e \<Rightarrow> Inl e | Inr x \<Rightarrow> f x)"

section \<open>The database\<close>

text \<open>
  SQLite compares the names of tables and columns without regard to the case of the
  ASCII letters: \<open>nocase\<close> folds a name to lower case.  Python compares strings as they
  are written.
\<close>

definition nocase_char :: "char \<Rightarrow> char" where
  "nocase_char c =
     (case map_of (zip ''ABCDEFGHIJKLMNOPQRSTUVWXYZ'' ''abcdefghijklmnopqrstuvwxyz'') c of
        None \<Rightarrow> c
      | Some l \<Rightarrow> l)"

definition nocase :: "string \<Rightarrow> string" where
  "nocase s = map nocase_char s"

text \<open>
  The SQLite file is a finite map from the folded names of its tables to the tables, so
  that no two tables have names that differ in case only; a table named \<open>Users\<close> is the
  entry of \<open>users\<close> with \<open>tname = Users\<close>.  Every statement looks its table up under
  the folded name, so an entry under any other key is never read.  A table has its name as
  \<open>sqlite_master\<close> holds it, its column names in declaration order, its rows (each a list
  of values aligned with the columns), the name of its \<open>INTEGER PRIMARY KEY\<close> column if
  it has one, whether that key is \<open>AUTOINCREMENT\<close>, the largest key handed out so far
  (SQLite's \<open>sqlite_sequence\<close>), and the numbers that SQLite's random generator will
  yield when it is asked for keys of this table.
\<close>

datatype sqlval = Null | IntV int | TextV pystr

record table =
  tname :: string
  cols :: "string list"
  rows :: "sqlval list list"
  pkey :: "string option"
  autoinc :: bool
  seq :: int
  random_rowids :: "nat \<Rightarrow> int"

type_synonym db = "string \<rightharpoonup> table"

text \<open>The table a statement names.\<close>

definition find_table :: "db \<Rightarrow> string \<Rightarrow> table option" where
  "find_table d t = d (nocase t)"

text \<open>
  \<open>table_exists\<close> asks \<open>sqlite_master\<close> for a table of exactly this name;
  \<open>column_exists\<close> reads the columns with \<open>PRAGMA table_info\<close>, which is empty for a
  missing table, and looks for the column with Python's \<open>in\<close>.
\<close>

definition table_exists :: "db \<Rightarrow> string \<Rightarrow> bool" where
  "table_exists d name = (case find_table d name of None \<Rightarrow> False | Some T \<Rightarrow> tname T = name)"

definition column_exists :: "db \<Rightarrow> string \<Rightarrow> string \<Rightarrow> bool" where
  "column_exists d t column =
     (case find_table d t of None \<Rightarrow> False | Some T \<Rightarrow> column \<in> set (cols T))"

text \<open>
  \<open>CREATE TABLE t(...)\<close>: fails when there is a table of this name already, in whatever
  case it is written.  The random generator is never asked for a key of a table that
  the program creates (\<open>queries\<close> and \<open>presets\<close> are \<open>AUTOINCREMENT\<close>, and every insert
  into \<open>users\<close> gives the key), so that field of a new table is left constant.
\<close>

definition create_table :: "db \<Rightarrow> string \<Rightarrow> string list \<Rightarrow> string \<Rightarrow> bool \<Rightarrow> py_error + db" where
  "create_table d t cs k auto =
     (if find_table d t \<noteq> None then Inl OperationalError
      else Inr (d(nocase t \<mapsto> \<lparr>tname = t, cols = cs, rows = [], pkey = Some k, autoinc = auto,
                                seq = 0, random_rowids = (\<lambda>n. 0)\<rparr>)))"

text \<open>
  \<open>ALTER TABLE t ADD COLUMN c TEXT\<close>: the column is appended and reads as \<open>NULL\<close> in every
  existing row; it fails on a missing table and on a column that is there already, in
  whatever case it is written.
\<close>

definition add_column :: "db \<Rightarrow> string \<Rightarrow> string \<Rightarrow> py_error + db" where
  "add_column d t c =
     (case find_table d t of
        None \<Rightarrow> Inl OperationalError
      | Some T \<Rightarrow>
          if nocase c \<in> set (map nocase (cols T)) then Inl OperationalError
          else Inr (d(nocase t \<mapsto> T\<lparr>cols := cols T @ [c], rows := map (\<lambda>r. r @ [Null]) (rows T)\<rparr>)))"

definition users_columns :: "string list" where
  "users_columns = [''user_id'', ''username'', ''fullname'', ''reg_date'']"

definition queries_columns :: "string list" where
  "queries_columns = [''id'', ''user_id'', ''text'', ''source'', ''params'', ''ts'']"

definition presets_columns :: "string list" where
  "presets_columns = [''id'', ''user_id'', ''name'', ''content'', ''created_at'']"

text \<open>The \<open>if not column_exists(...): ALTER TABLE ...\<close> step of the migration.\<close>

definition add_if_missing :: "string \<Rightarrow> string \<Rightarrow> db \<Rightarrow> py_error + db" where
  "add_if_missing t c d = (if \<not> column_exists d t c then add_column d t c else Inr d)"

text \<open>The \<open>for col in (...)\<close> loop of the \<open>queries\<close> branch.\<close>

fun add_columns_loop :: "string \<Rightarrow> string list \<Rightarrow> db \<Rightarrow> py_error + db" where
  "add_columns_loop t [] d = Inr d"
| "add_columns_loop t (c # cs) d = ebind (add_if_missing t c d) (add_columns_loop t cs)"

definition ensure_users :: "db \<Rightarrow> py_error + db" where
  "ensure_users d =
     (if \<not> table_exists d ''users'' then create_table d ''users'' users_columns ''user_id'' False
      else ebind (add_if_missing ''users'' ''fullname'' d) (add_if_missing ''users'' ''reg_date''))"

definition ensure_queries :: "db \<Rightarrow> py_error + db" where
  "ensure_queries d =
     (if \<not> table_exists d ''queries'' then create_table d ''queries'' queries_columns ''id'' True
      else add_columns_loop ''queries'' [''source'', ''params'', ''ts''] d)"

definition ensure_presets :: "db \<Rightarrow> py_error + db" where
  "ensure_presets d =
     (if \<not> table_exists d ''presets'' then create_table d ''presets'' presets_columns ''id'' True
      else ebind (add_if_missing ''presets'' ''content'' d) (add_if_missing ''presets'' ''created_at''))"

definition ensure_tables_and_columns :: "db \<Rightarrow> py_error + db" where
  "ensure_tables_and_columns d = ebind (ensure_users d) (\<lambda>d1. ebind (ensure_queries d1) ensure_presets)"

text \<open>
  The columns of each table as the \<open>CREATE TABLE\<close> statements declare them, and the
  columns the \<open>else\<close> branches look for in a table that exists already.
\<close>

definition target_columns :: "string \<Rightarrow> string list" where
  "target_columns t =
     (if t = ''users'' then users_columns
      else if t = ''queries'' then queries_columns
      else if t = ''presets'' then presets_columns
      else [])"

definition migrated_columns :: "string \<Rightarrow> string list" where
  "migrated_columns t =
     (if t = ''users'' then [''fullname'', ''reg_date'']
      else if t = ''queries'' then [''source'', ''params'', ''ts'']
      else if t = ''presets'' then [''content'', ''created_at'']
      else [])"


subsection \<open>Statements\<close>

fun index_of :: "'a \<Rightarrow> 'a list \<Rightarrow> nat option" where
  "index_of x [] = None"
| "index_of x (y # ys) = (if x = y then Some 0 else map_option Suc (index_of x ys))"

text \<open>The value of column \<open>c\<close> in row \<open>r\<close> of table \<open>T\<close>.\<close>

definition cell :: "table \<Rightarrow> sqlval list \<Rightarrow> string \<Rightarrow> sqlval" where
  "cell T r c =
     (case index_of c (cols T) of
        None \<Rightarrow> Null
      | Some i \<Rightarrow> if i < length r then r ! i else Null)"

text \<open>\<open>column = ?\<close> in a \<open>WHERE\<close> clause: a comparison with \<open>NULL\<close> is never true.\<close>

definition sql_eq :: "sqlval \<Rightarrow> sqlval \<Rightarrow> bool" where
  "sql_eq a b = (a \<noteq> Null \<and> a = b)"

text \<open>
  SQLite's order of values: \<open>NULL\<close> first, then integers, then text; text is compared
  code point by code point.
\<close>

fun text_le :: "pystr \<Rightarrow> pystr \<Rightarrow> bool" where
  "text_le [] _ = True"
| "text_le (x # xs) [] = False"
| "text_le (x # xs) (y # ys) = (x < y \<or> (x = y \<and> text_le xs ys))"

fun sql_le :: "sqlval \<Rightarrow> sqlval \<Rightarrow> bool" where
  "sql_le Null _ = True"
| "sql_le (IntV i) Null = False"
| "sql_le (IntV i) (IntV j) = (i \<le> j)"
| "sql_le (IntV i) (TextV t) = True"
| "sql_le (TextV s) (TextV t) = text_le s t"
| "sql_le (TextV s) _ = False"

text \<open>\<open>ORDER BY key DESC\<close>, as an insertion sort.\<close>

fun insert_desc :: "('a \<Rightarrow> sqlval) \<Rightarrow> 'a \<Rightarrow> 'a list \<Rightarrow> 'a list" where
  "insert_desc k x [] = [x]"
| "insert_desc k x (y # ys) = (if sql_le (k y) (k x) then x # y # ys else y # insert_desc k x ys)"

definition order_by_desc :: "('a \<Rightarrow> sqlval) \<Rightarrow> 'a list \<Rightarrow> 'a list" where
  "order_by_desc k xs = foldr (insert_desc k) xs []"

text \<open>\<open>LIMIT n\<close>: a negative limit is no limit.\<close>

definition sql_limit :: "int \<Rightarrow> 'a list \<Rightarrow> 'a list" where
  "sql_limit n xs = (if n < 0 then xs else take (nat n) xs)"

text \<open>
  A statement that names a table or a column the database does not have fails with
  \<open>sqlite3.OperationalError\<close>.
\<close>

definition open_table :: "db \<Rightarrow> string \<Rightarrow> string list \<Rightarrow> py_error + table" where
  "open_table d t cs =
     (case find_table d t of
        None \<Rightarrow> Inl OperationalError
      | Some T \<Rightarrow> if list_all (\<lambda>c. c \<in> set (cols T)) cs then Inr T else Inl OperationalError)"

text \<open>
  The keys in use, and the key SQLite gives a row inserted without one.  Keys are 64-bit
  integers, \<open>MAX_ROWID\<close> is the largest.  \<open>next_rowid\<close> is the key after the largest
  one in the table and, for \<open>AUTOINCREMENT\<close>, after the largest one ever handed out.
  \<open>new_rowid\<close> chooses the key: it is \<open>next_rowid\<close> while that is a key; when the
  largest key is taken, an \<open>AUTOINCREMENT\<close> table is full (\<open>database or disk is full\<close>,
  an \<open>OperationalError\<close>), and for any other table SQLite draws up to 100 random keys
  between 1 and \<open>2\<^sup>6\<^sup>2\<close> and takes the first one not in use, or fails in the same way.
\<close>

definition MAX_ROWID :: int where
  "MAX_ROWID = 9223372036854775807"

definition rowids :: "table \<Rightarrow> int list" where
  "rowids T =
     (case pkey T of
        None \<Rightarrow> []
      | Some k \<Rightarrow> concat (map (\<lambda>r. case cell T r k of IntV i \<Rightarrow> [i] | _ \<Rightarrow> []) (rows T)))"

definition last_rowid :: "table \<Rightarrow> int" where
  "last_rowid T = (let ids = rowids T in if ids = [] then 0 else fold max (tl ids) (hd ids))"

definition next_rowid :: "table \<Rightarrow> int" where
  "next_rowid T = (if autoinc T then max (seq T) (last_rowid T) else last_rowid T) + 1"

definition random_rowid :: "table \<Rightarrow> py_error + (int \<times> table)" where
  "random_rowid T =
     (let cands = map (\<lambda>n. 1 + random_rowids T n mod 2 ^ 62) [0 ..< 100];
          tried = takeWhile (\<lambda>k. k \<in> set (rowids T)) cands
      in if length tried = 100 then Inl OperationalError
         else Inr (cands ! length tried,
                   T\<lparr>random_rowids := (\<lambda>n. random_rowids T (n + length tried + 1))\<rparr>))"

definition new_rowid :: "table \<Rightarrow> py_error + (int \<times> table)" where
  "new_rowid T =
     (if autoinc T then
        (if MAX_ROWID \<le> seq T \<or> MAX_ROWID \<le> last_rowid T then Inl OperationalError
         else Inr (next_rowid T, T))
      else if MAX_ROWID \<le> last_rowid T then random_rowid T
      else Inr (next_rowid T, T))"

definition store :: "table \<Rightarrow> (string \<times> sqlval) list \<Rightarrow> int \<Rightarrow> table \<times> int" where
  "store T vals rid =
     (T\<lparr>rows := rows T @
          [map (\<lambda>c. if pkey T = Some c then IntV rid
                    else (case map_of vals c of Some v \<Rightarrow> v | None \<Rightarrow> Null)) (cols T)],
        seq := (if autoinc T then max (seq T) rid else seq T)\<rparr>,
      rid)"

text \<open>
  \<open>INSERT INTO t(c1, ...) VALUES (?, ...)\<close> on one table: the columns not named are
  \<open>NULL\<close>, the key is the one given or a new one, and a key that is in use already (or
  that is text) violates the primary key.  The result carries the new row's key
  (\<open>cur.lastrowid\<close>).
\<close>

definition insert_row :: "table \<Rightarrow> (string \<times> sqlval) list \<Rightarrow> py_error + (table \<times> int)" where
  "insert_row T vals =
     (if \<not> list_all (\<lambda>c. c \<in> set (cols T)) (map fst vals) then Inl OperationalError
      else case (case pkey T of None \<Rightarrow> None | Some k \<Rightarrow> map_of vals k) of
             Some (TextV s) \<Rightarrow> Inl IntegrityError
           | Some (IntV i) \<Rightarrow> if i \<in> set (rowids T) then Inl IntegrityError else Inr (store T vals i)
           | Some Null \<Rightarrow> ebind (new_rowid T) (\<lambda>(rid, T1). Inr (store T1 vals rid))
           | None \<Rightarrow> ebind (new_rowid T) (\<lambda>(rid, T1). Inr (store T1 vals rid)))"

definition sql_insert :: "db \<Rightarrow> string \<Rightarrow> (string \<times> sqlval) list \<Rightarrow> py_error + (db \<times> int)" where
  "sql_insert d t vals =
     (case find_table d t of
        None \<Rightarrow> Inl OperationalError
      | Some T \<Rightarrow> ebind (insert_row T vals) (\<lambda>(T', rid). Inr (d(nocase t \<mapsto> T'), rid)))"

subsection \<open>Users, queries, presets\<close>

text \<open>
  The Telegram user of a message.  The clock is not part of the model: each function that
  calls \<open>datetime_now()\<close> takes the text it returned as its argument \<open>now\<close>.
\<close>

record tg_user =
  uid :: int
  first_name :: "pystr option"
  last_name :: "pystr option"
  username :: "pystr option"

text \<open>\<open>sep.join(parts)\<close>.\<close>

fun py_join :: "pystr \<Rightarrow> pystr list \<Rightarrow> pystr" where
  "py_join sep [] = []"
| "py_join sep [x] = x"
| "py_join sep (x # y # ys) = x @ sep @ py_join sep (y # ys)"

text \<open>\<open>filter(None, xs)\<close> on optional strings keeps the non-empty strings.\<close>

definition filter_none :: "pystr option list \<Rightarrow> pystr list" where
  "filter_none xs = concat (map (\<lambda>x. case x of None \<Rightarrow> [] | Some s \<Rightarrow> if s = [] then [] else [s]) xs)"

definition opt_text :: "pystr option \<Rightarrow> sqlval" where
  "opt_text x = (case x of None \<Rightarrow> Null | Some s \<Rightarrow> TextV s)"

definition register_user :: "db \<Rightarrow> tg_user \<Rightarrow> pystr \<Rightarrow> py_error + db" where
  "register_user d user now =
     ebind (open_table d ''users'' [''user_id'']) (\<lambda>T.
       if filter (\<lambda>r. sql_eq (cell T r ''user_id'') (IntV (uid user))) (rows T) = [] then
         ebind (sql_insert d ''users''
                  [(''user_id'', IntV (uid user)),
                   (''username'', opt_text (username user)),
                   (''fullname'', TextV (py_join (asc '' '') (filter_none [first_name user, last_name user]))),
                   (''reg_date'', TextV now)])
               (\<lambda>(d', rid). Inr d')
       else Inr d)"

text \<open>
  \<open>params\<close> is \<open>None\<close> (or an empty dictionary), stored as \<open>{}\<close>, or a dictionary given
  here by its \<open>str\<close>.
\<close>

definition log_query :: "db \<Rightarrow> int \<Rightarrow> pystr \<Rightarrow> pystr \<Rightarrow> pystr option \<Rightarrow> pystr \<Rightarrow> py_error + (db \<times> int)" where
  "log_query d user_id text source params now =
     sql_insert d ''queries''
       [(''user_id'', IntV user_id),
        (''text'', TextV text),
        (''source'', TextV source),
        (''params'', TextV (case params of None \<Rightarrow> asc ''{}'' | Some p \<Rightarrow> p)),
        (''ts'', TextV now)]"

definition list_history :: "db \<Rightarrow> int \<Rightarrow> int \<Rightarrow> py_error + (sqlval \<times> sqlval) list" where
  "list_history d user_id limit =
     ebind (open_table d ''queries'' [''text'', ''ts'', ''user_id'', ''id'']) (\<lambda>T.
       Inr (map (\<lambda>r. (cell T r ''text'', cell T r ''ts''))
             (sql_limit limit
               (order_by_desc (\<lambda>r. cell T r ''id'')
                 (filter (\<lambda>r. sql_eq (cell T r ''user_id'') (IntV user_id)) (rows T))))))"

definition add_preset_db :: "db \<Rightarrow> int \<Rightarrow> pystr \<Rightarrow> pystr \<Rightarrow> pystr \<Rightarrow> py_error + db" where
  "add_preset_db d user_id name content now =
     ebind (sql_insert d ''presets''
              [(''user_id'', IntV user_id),
               (''name'', TextV name),
               (''content'', TextV content),
               (''created_at'', TextV now)])
           (\<lambda>(d', rid). Inr d')"

definition preset_matches :: "table \<Rightarrow> int \<Rightarrow> pystr \<Rightarrow> sqlval list \<Rightarrow> bool" where
  "preset_matches T user_id name r =
     (sql_eq (cell T r ''user_id'') (IntV user_id) \<and> sql_eq (cell T r ''name'') (TextV name))"

definition list_presets_db :: "db \<Rightarrow> int \<Rightarrow> py_error + (sqlval \<times> sqlval) list" where
  "list_presets_db d user_id =
     ebind (open_table d ''presets'' [''name'', ''content'', ''user_id'']) (\<lambda>T.
       Inr (map (\<lambda>r. (cell T r ''name'', cell T r ''content''))
             (filter (\<lambda>r. sql_eq (cell T r ''user_id'') (IntV user_id)) (rows T))))"

definition get_preset_db :: "db \<Rightarrow> int \<Rightarrow> pystr \<Rightarrow> py_error + sqlval option" where
  "get_preset_db d user_id name =
     ebind (open_table d ''presets'' [''content'', ''user_id'', ''name'']) (\<lambda>T.
       Inr (case filter (preset_matches T user_id name) (rows T) of
              [] \<Rightarrow> None
            | r # rs \<Rightarrow> Some (cell T r ''content'')))"

definition delete_preset_db :: "db \<Rightarrow> int \<Rightarrow> pystr \<Rightarrow> py_error + db" where
  "delete_preset_db d user_id name =
     ebind (open_table d ''presets'' [''user_id'', ''name'']) (\<lambda>T.
       Inr (d(''presets'' \<mapsto> T\<lparr>rows := filter (\<lambda>r. \<not> preset_matches T user_id name r) (rows T)\<rparr>)))"

subsection \<open>What the migration computes\<close>

text \<open>
  The table the migration leaves behind: a table that exists gains the columns of its
  migration list that it lacks, each reading \<open>NULL\<close>; a table that does not exist is
  created empty with all its columns.
\<close>

definition upgraded :: "string list \<Rightarrow> table \<Rightarrow> table" where
  "upgraded cs T =
     T\<lparr>cols := cols T @ filter (\<lambda>c. c \<notin> set (cols T)) cs,
       rows := map (\<lambda>r. r @ replicate (length (filter (\<lambda>c. c \<notin> set (cols T)) cs)) Null) (rows T)\<rparr>"

definition fresh_table :: "string \<Rightarrow> table" where
  "fresh_table t = \<lparr>tname = t, cols = target_columns t, rows = [], pkey = Some (hd (target_columns t)),
     autoinc = (t \<noteq> ''users''), seq = 0, random_rowids = (\<lambda>n. 0)\<rparr>"

definition ensured_table :: "string \<Rightarrow> table option \<Rightarrow> table" where
  "ensured_table t x = (case x of None \<Rightarrow> fresh_table t | Some T \<Rightarrow> upgraded (migrated_columns t) T)"

definition ensured_db :: "db \<Rightarrow> db" where
  "ensured_db d = d(''users'' \<mapsto> ensured_table ''users'' (d ''users''),
                    ''queries'' \<mapsto> ensured_table ''queries'' (d ''queries''),
                    ''presets'' \<mapsto> ensured_table ''presets'' (d ''presets''))"

text \<open>
  The migration compares names as Python does and SQLite does not.  It is followed here
  on the databases where the two agree: a table among \<open>users\<close>, \<open>queries\<close> and \<open>presets\<close>
  has its name in lower case, and so has each of its columns that is, but for its case,
  on the migration list of the table.
\<close>

definition migratable :: "string \<Rightarrow> table \<Rightarrow> bool" where
  "migratable t T =
     (tname T = t \<and>
      list_all (\<lambda>x. nocase x \<in> set (migrated_columns t) \<longrightarrow> nocase x = x) (cols T))"

definition schema_names_ok :: "db \<Rightarrow> bool" where
  "schema_names_ok d =
     list_all (\<lambda>t. case d t of None \<Rightarrow> True | Some T \<Rightarrow> migratable t T)
       [''users'', ''queries'', ''presets'']"

definition table_after_ensure :: "db \<Rightarrow> string \<Rightarrow> table option" where
  "table_after_ensure d t = (case ensure_tables_and_columns d of Inl e \<Rightarrow> None | Inr d1 \<Rightarrow> d1 t)"

subsection \<open>Databases of older versions\<close>

text \<open>
  Three databases written by older versions of the schema, each with one row: a \<open>users\<close>
  table without \<open>fullname\<close>, a \<open>users\<close> table without \<open>username\<close>, and a \<open>queries\<close>
  table without \<open>text\<close>, \<open>source\<close>, \<open>params\<close> and \<open>ts\<close>.
\<close>

definition users_without_fullname :: table where
  "users_without_fullname =
     \<lparr>tname = ''users'', cols = [''user_id'', ''username'', ''reg_date''],
      rows = [[IntV 7, TextV (asc ''ann''), TextV (asc ''2025-09-10 08:00:00'')]],
      pkey = Some ''user_id'', autoinc = False, seq = 0, random_rowids = (\<lambda>n. 0)\<rparr>"

definition users_without_username :: table where
  "users_without_username =
     \<lparr>tname = ''users'', cols = [''user_id'', ''fullname'', ''reg_date''],
      rows = [[IntV 7, TextV (asc ''Ann Lee''), TextV (asc ''2025-09-10 08:00:00'')]],
      pkey = Some ''user_id'', autoinc = False, seq = 0, random_rowids = (\<lambda>n. 0)\<rparr>"

definition queries_without_text :: table where
  "queries_without_text =
     \<lparr>tname = ''queries'', cols = [''id'', ''user_id''],
      rows = [[IntV 1, IntV 7]],
      pkey = Some ''id'', autoinc = True, seq = 1, random_rowids = (\<lambda>n. 0)\<rparr>"


text \<open>
  Two databases on which the program raises: a \<open>users\<close> table whose \<open>fullname\<close> column
  is written \<open>FullName\<close>, and a \<open>queries\<close> table that holds the largest key.
\<close>

definition users_with_FullName :: table where
  "users_with_FullName =
     \<lparr>tname = ''users'', cols = [''user_id'', ''username'', ''FullName'', ''reg_date''],
      rows = [[IntV 7, TextV (asc ''ann''), TextV (asc ''Ann Lee''), TextV (asc ''2025-09-10 08:00:00'')]],
      pkey = Some ''user_id'', autoinc = False, seq = 0, random_rowids = (\<lambda>n. 0)\<rparr>"

definition queries_full :: table where
  "queries_full =
     \<lparr>tname = ''queries'', cols = queries_columns,
      rows = [[IntV MAX_ROWID, IntV 7, TextV (asc ''hello''), TextV (asc ''message''), TextV (asc ''{}''),
               TextV (asc ''2025-09-10 08:00:00'')]],
      pkey = Some ''id'', autoinc = True, seq = MAX_ROWID, random_rowids = (\<lambda>n. 0)\<rparr>"
subsection \<open>Well-formed tables\<close>

text \<open>
  The tables as the schema of the program has them: all the columns of the
  \<open>CREATE TABLE\<close> statement are there and the key is the declared one.  In \<open>users\<close>
  the keys are distinct, and in \<open>queries\<close> every row has an integer key: both are what
  SQLite guarantees for an \<open>INTEGER PRIMARY KEY\<close>.  \<open>log_all\<close> is a run of
  \<open>log_query\<close> calls for one user, each with its text, source, parameters and clock
  reading, and \<open>logged_pair\<close> is what \<open>list_history\<close> shows of one such call.
\<close>

definition users_ok :: "db \<Rightarrow> bool" where
  "users_ok d =
     (case d ''users'' of
        None \<Rightarrow> False
      | Some T \<Rightarrow> list_all (\<lambda>c. c \<in> set (cols T)) users_columns \<and> pkey T = Some ''user_id'' \<and>
                  distinct (rowids T))"

definition presets_ok :: "db \<Rightarrow> bool" where
  "presets_ok d =
     (case d ''presets'' of
        None \<Rightarrow> False
      | Some T \<Rightarrow> list_all (\<lambda>c. c \<in> set (cols T)) presets_columns \<and> pkey T = Some ''id'')"

definition count_user_rows :: "db \<Rightarrow> int \<Rightarrow> nat" where
  "count_user_rows d i =
     (case d ''users'' of
        None \<Rightarrow> 0
      | Some T \<Rightarrow> length (filter (\<lambda>r. sql_eq (cell T r ''user_id'') (IntV i)) (rows T)))"

definition preset_rows :: "db \<Rightarrow> sqlval list list" where
  "preset_rows d = (case d ''presets'' of None \<Rightarrow> [] | Some T \<Rightarrow> rows T)"

definition queries_ok :: "db \<Rightarrow> bool" where
  "queries_ok d =
     (case d ''queries'' of
        None \<Rightarrow> False
      | Some T \<Rightarrow> list_all (\<lambda>c. c \<in> set (cols T)) queries_columns \<and> pkey T = Some ''id'' \<and>
                  list_all (\<lambda>r. case cell T r ''id'' of IntV i \<Rightarrow> True | _ \<Rightarrow> False) (rows T))"

text \<open>
  \<open>room_for n T\<close>: the next \<open>n\<close> keys after the largest one of the table are keys, so
  that \<open>n\<close> rows can be inserted before the keys run out.
\<close>

definition room_for :: "nat \<Rightarrow> table \<Rightarrow> bool" where
  "room_for n T = (next_rowid T + int n \<le> MAX_ROWID + 1)"

definition queries_room :: "db \<Rightarrow> nat \<Rightarrow> bool" where
  "queries_room d n = (case d ''queries'' of None \<Rightarrow> False | Some T \<Rightarrow> room_for n T)"

definition presets_room :: "db \<Rightarrow> nat \<Rightarrow> bool" where
  "presets_room d n = (case d ''presets'' of None \<Rightarrow> False | Some T \<Rightarrow> room_for n T)"

definition query_rows :: "db \<Rightarrow> sqlval list list" where
  "query_rows d = (case d ''queries'' of None \<Rightarrow> [] | Some T \<Rightarrow> rows T)"

fun log_all :: "db \<Rightarrow> int \<Rightarrow> (pystr \<times> pystr \<times> pystr option \<times> pystr) list \<Rightarrow> py_error + db" where
  "log_all d user_id [] = Inr d"
| "log_all d user_id ((text, source, params, now) # es) =
     ebind (log_query d user_id text source params now) (\<lambda>(d', qid). log_all d' user_id es)"

definition logged_pair :: "pystr \<times> pystr \<times> pystr option \<times> pystr \<Rightarrow> sqlval \<times> sqlval" where
  "logged_pair e = (case e of (text, source, params, now) \<Rightarrow> (TextV text, TextV now))"


subsection \<open>A new database and two users\<close>

definition fresh_db :: db where
  "fresh_db = [''users'' \<mapsto> fresh_table ''users'', ''queries'' \<mapsto> fresh_table ''queries'',
               ''presets'' \<mapsto> fresh_table ''presets'']"

definition ann :: tg_user where
  "ann = \<lparr>uid = 7, first_name = Some (asc ''Ann''), last_name = Some (asc ''Lee''),
          username = Some (asc ''ann'')\<rparr>"

definition ann_renamed :: tg_user where
  "ann_renamed = \<lparr>uid = 7, first_name = Some (asc ''Anna''), last_name = None, username = None\<rparr>"

section \<open>Strings\<close>

text \<open>\<open>html.escape(s)\<close> with its default \<open>quote=True\<close>.\<close>

definition escape_char :: "nat \<Rightarrow> pystr" where
  "escape_char c =
     (if c = of_char (CHR ''&'') then asc ''&amp;''
      else if c = of_char (CHR ''<'') then asc ''&lt;''
      else if c = of_char (CHR ''>'') then asc ''&gt;''
      else if c = 34 then asc ''&quot;''
      else if c = 39 then asc ''&#x27;''
      else [c])"

definition escape :: "pystr \<Rightarrow> pystr" where
  "escape s = concat (map escape_char s)"

text \<open>
  A text is safe for Telegram's HTML mode when it has no \<open><\<close> and no \<open>>\<close> and each
  \<open>&\<close> in it starts one of the five entities that \<open>escape\<close> writes.
\<close>

definition entity_bodies :: "pystr list" where
  "entity_bodies = [asc ''amp;'', asc ''lt;'', asc ''gt;'', asc ''quot;'', asc ''#x27;'']"

fun html_safe :: "pystr \<Rightarrow> bool" where
  "html_safe [] = True"
| "html_safe (c # cs) =
     (if c = of_char (CHR ''<'') \<or> c = of_char (CHR ''>'') then False
      else if c = of_char (CHR ''&'') then list_ex (\<lambda>e. take (length e) cs = e) entity_bodies \<and> html_safe cs
      else html_safe cs)"

text \<open>\<open>str.isspace\<close> for one code point, and the string methods the handlers use.\<close>

definition isspace :: "nat \<Rightarrow> bool" where
  "isspace c =
     (c \<in> set [9, 10, 11, 12, 13, 28, 29, 30, 31, 32, 133, 160, 5760, 8192, 8193, 8194, 8195,
               8196, 8197, 8198, 8199, 8200, 8201, 8202, 8232, 8233, 8239, 8287, 12288])"

text \<open>\<open>s.split(maxsplit=n)\<close>: split at runs of whitespace, at most \<open>n\<close> times.\<close>

fun py_split :: "nat \<Rightarrow> pystr \<Rightarrow> pystr list" where
  "py_split 0 s = (let r = dropWhile isspace s in if r = [] then [] else [r])"
| "py_split (Suc n) s =
     (let r = dropWhile isspace s
      in if r = [] then []
         else takeWhile (\<lambda>c. \<not> isspace c) r # py_split n (dropWhile (\<lambda>c. \<not> isspace c) r))"

text \<open>\<open>s.partition(" ")[2]\<close>: what follows the first space, or nothing.\<close>

definition after_first_space :: "pystr \<Rightarrow> pystr" where
  "after_first_space s = drop 1 (dropWhile (\<lambda>c. c \<noteq> 32) s)"

definition strip :: "pystr \<Rightarrow> pystr" where
  "strip s = rev (dropWhile isspace (rev (dropWhile isspace s)))"

text \<open>\<open>s.split(sep)\<close> for a separator of one character.\<close>

fun split_on :: "nat \<Rightarrow> pystr \<Rightarrow> pystr list" where
  "split_on sep [] = [[]]"
| "split_on sep (c # cs) =
     (if c = sep then [] # split_on sep cs
      else (case split_on sep cs of w # ws \<Rightarrow> (c # w) # ws | [] \<Rightarrow> [[c]]))"

text \<open>\<open>str(n)\<close> and \<open>f"{n:,}"\<close> for an integer.\<close>

fun dec_digits :: "nat \<Rightarrow> pystr" where
  "dec_digits n = (if n < 10 then [48 + n] else dec_digits (n div 10) @ [48 + n mod 10])"

declare dec_digits.simps [simp del]

definition str_int :: "int \<Rightarrow> pystr" where
  "str_int i = (if i < 0 then [45] else []) @ dec_digits (nat \<bar>i\<bar>)"

fun commas :: "pystr \<Rightarrow> pystr" where
  "commas (a # b # c # d # ds) = a # b # c # 44 # commas (d # ds)"
| "commas ds = ds"

definition format_thousands :: "int \<Rightarrow> pystr" where
  "format_thousands i = (if i < 0 then [45] else []) @ rev (commas (rev (dec_digits (nat \<bar>i\<bar>))))"

section \<open>The two HTTP adapters\<close>

text \<open>
  What \<open>r.json()\<close> returns.  A number is represented by an integer with the same truth
  value, which is all the code looks at; the members of an object are in the order of the
  document.
\<close>

datatype json =
    JNull
  | JBool bool
  | JNum int
  | JStr pystr
  | JArr "json list"
  | JObj "(pystr \<times> json) list"

text \<open>
  The requests the code sends, and what comes back: \<open>requests.post\<close> or \<open>requests.get\<close>
  raises (with the text of the exception), or there is a response with its status, the
  text of the \<open>HTTPError\<close> that \<open>raise_for_status()\<close> would raise, and its body if the
  body is JSON.
\<close>

datatype request =
    Post pystr "(pystr \<times> pystr) list" json nat
  | Get pystr "(pystr \<times> json) list" nat

record response =
  status :: nat
  http_error :: pystr
  body :: "json option"

datatype http_outcome = Raises pystr | Responds response

text \<open>
  What the program reads from its surroundings: the two keys of the environment (\<open>None\<close>
  when the variable is not set), the servers behind \<open>requests\<close>, Python's \<open>str\<close> of a
  decoded JSON value and of the exceptions whose text the interpreter writes.
\<close>

record env =
  OPENROUTER_API_KEY :: "pystr option"
  NEWS_API_KEY :: "pystr option"
  requests_post :: "request \<Rightarrow> http_outcome"
  requests_get :: "request \<Rightarrow> http_outcome"
  py_repr :: "json \<Rightarrow> pystr"
  interp_text :: "py_error \<Rightarrow> pystr"

text \<open>\<open>not key\<close>: the key is \<open>None\<close> or the empty string.\<close>

definition key_missing :: "pystr option \<Rightarrow> bool" where
  "key_missing k = (k = None \<or> k = Some [])"

text \<open>\<open>bool(v)\<close> of a JSON value, and \<open>str(e)\<close> of an exception.\<close>

fun truthy :: "json \<Rightarrow> bool" where
  "truthy JNull = False"
| "truthy (JBool b) = b"
| "truthy (JNum i) = (i \<noteq> 0)"
| "truthy (JStr s) = (s \<noteq> [])"
| "truthy (JArr xs) = (xs \<noteq> [])"
| "truthy (JObj kvs) = (kvs \<noteq> [])"

definition str_exc :: "env \<Rightarrow> py_error \<Rightarrow> pystr" where
  "str_exc E e = (case e of RuntimeError m \<Rightarrow> m | RequestException m \<Rightarrow> m | _ \<Rightarrow> interp_text E e)"

text \<open>\<open>d[key]\<close> on an object keeps the last member of that name, as \<open>json.loads\<close> does.\<close>

definition member :: "(pystr \<times> json) list \<Rightarrow> pystr \<Rightarrow> json option" where
  "member kvs k = map_of (rev kvs) k"

text \<open>\<open>v[key]\<close> for a string key and \<open>v[0]\<close>; \<open>v.get(key)\<close>.\<close>

fun subscript :: "json \<Rightarrow> pystr \<Rightarrow> py_error + json" where
  "subscript (JObj kvs) k = (case member kvs k of None \<Rightarrow> Inl KeyError | Some v \<Rightarrow> Inr v)"
| "subscript v k = Inl TypeError"

fun subscript0 :: "json \<Rightarrow> py_error + json" where
  "subscript0 (JArr xs) = (case xs of [] \<Rightarrow> Inl IndexError | x # _ \<Rightarrow> Inr x)"
| "subscript0 (JStr s) = (case s of [] \<Rightarrow> Inl IndexError | c # _ \<Rightarrow> Inr (JStr [c]))"
| "subscript0 (JObj kvs) = Inl KeyError"
| "subscript0 v = Inl TypeError"

fun json_get :: "json \<Rightarrow> pystr \<Rightarrow> py_error + json" where
  "json_get (JObj kvs) k = (case member kvs k of None \<Rightarrow> Inr JNull | Some v \<Rightarrow> Inr v)"
| "json_get v k = Inl AttributeError"

text \<open>\<open>r.raise_for_status()\<close> followed by \<open>r.json()\<close>.\<close>

definition checked_json :: "http_outcome \<Rightarrow> py_error + json" where
  "checked_json out =
     (case out of
        Raises m \<Rightarrow> Inl (RequestException m)
      | Responds r \<Rightarrow>
          if 400 \<le> status r \<and> status r < 600 then Inl (RequestException (http_error r))
          else (case body r of None \<Rightarrow> Inl ValueError | Some j \<Rightarrow> Inr j))"

definition ask_request :: "pystr \<Rightarrow> pystr \<Rightarrow> request" where
  "ask_request key question =
     Post (asc ''https://api.openrouter.ai/v1/chat/completions'')
          [(asc ''Authorization'', asc ''Bearer '' @ key)]
          (JObj [(asc ''model'', JStr (asc ''gpt-4.1-mini'')),
                 (asc ''messages'', JArr [JObj [(asc ''role'', JStr (asc ''user'')),
                                                (asc ''content'', JStr question)]]),
                 (asc ''max_tokens'', JNum 800)])
          15"

text \<open>
  \<open>ask_neuron\<close> returns its result, or the exception it raises, together with the
  requests it has sent.
\<close>

definition first_content :: "json \<Rightarrow> py_error + json" where
  "first_content j =
     ebind (subscript j (asc ''choices'')) (\<lambda>cs.
     ebind (subscript0 cs) (\<lambda>c.
     ebind (subscript c (asc ''message'')) (\<lambda>m.
     subscript m (asc ''content''))))"

definition ask_neuron :: "env \<Rightarrow> pystr \<Rightarrow> (py_error + json) \<times> request list" where
  "ask_neuron E question =
     (if key_missing (OPENROUTER_API_KEY E) then (Inl (RuntimeError (asc ''OPENROUTER_API_KEY not set'')), [])
      else
        let req = ask_request (the (OPENROUTER_API_KEY E)) question
        in (ebind (checked_json (requests_post E req)) (\<lambda>j.
              case first_content j of
                Inr v \<Rightarrow> Inr v
              | Inl e \<Rightarrow> ebind (json_get j (asc ''text'')) (\<lambda>t.
                           if truthy t then Inr t else Inr (JStr (py_repr E j)))),
            [req]))"

definition news_request :: "pystr \<Rightarrow> pystr \<Rightarrow> int \<Rightarrow> request" where
  "news_request key topic limit =
     Get (asc ''https://newsapi.org/v2/everything'')
         [(asc ''q'', JStr topic), (asc ''pageSize'', JNum limit),
          (asc ''language'', JStr (asc ''ru'')), (asc ''apiKey'', JStr key)]
         10"

definition NO_TITLE :: pystr where
  "NO_TITLE =
     [1041, 1077, 1079, 32, 1079, 1072, 1075, 1086, 1083, 1086, 1074, 1082, 1072]"

text \<open>
  \<open>escape(v)\<close> for a value that may be anything: \<open>escape\<close> calls \<open>v.replace\<close>, which
  only a string has.
\<close>

definition escape_value :: "json \<Rightarrow> py_error + pystr" where
  "escape_value v = (case v of JStr s \<Rightarrow> Inr (escape s) | _ \<Rightarrow> Inl AttributeError)"

text \<open>The body of the \<open>for a in articles\<close> loop: one line of the result.\<close>

definition news_line :: "json \<Rightarrow> py_error + pystr" where
  "news_line a =
     ebind (json_get a (asc ''title'')) (\<lambda>t.
     ebind (escape_value (if truthy t then t else JStr NO_TITLE)) (\<lambda>title.
     ebind (json_get a (asc ''url'')) (\<lambda>u.
     ebind (escape_value (if truthy u then u else JStr [])) (\<lambda>urla.
     Inr (title @ [10] @ urla)))))"

fun news_lines :: "json list \<Rightarrow> py_error + pystr list" where
  "news_lines [] = Inr []"
| "news_lines (a # as) = ebind (news_line a) (\<lambda>l. ebind (news_lines as) (\<lambda>ls. Inr (l # ls)))"

text \<open>
  What \<open>for a in articles\<close> iterates over: the elements of a list, the keys of an
  object, the characters of a string; anything else is not iterable.
\<close>

fun iterate :: "json \<Rightarrow> py_error + json list" where
  "iterate (JArr xs) = Inr xs"
| "iterate (JObj kvs) = Inr (map JStr (rev (remdups (rev (map fst kvs)))))"
| "iterate (JStr s) = Inr (map (\<lambda>c. JStr [c]) s)"
| "iterate v = Inl TypeError"

definition articles_of :: "json \<Rightarrow> py_error + json" where
  "articles_of j =
     (case j of
        JObj kvs \<Rightarrow> (case member kvs (asc ''articles'') of None \<Rightarrow> Inr (JArr []) | Some v \<Rightarrow> Inr v)
      | _ \<Rightarrow> Inl AttributeError)"

definition get_news :: "env \<Rightarrow> pystr \<Rightarrow> int \<Rightarrow> (py_error + pystr list) \<times> request list" where
  "get_news E topic limit =
     (if key_missing (NEWS_API_KEY E) then (Inl (RuntimeError (asc ''NEWS_API_KEY not set'')), [])
      else
        let req = news_request (the (NEWS_API_KEY E)) topic limit
        in (ebind (checked_json (requests_get E req)) (\<lambda>j.
            ebind (articles_of j) (\<lambda>articles.
            ebind (iterate articles) news_lines)),
            [req]))"

section \<open>The demo file and the report\<close>

subsection \<open>Bytes and text\<close>

text \<open>
  A file is a list of bytes (naturals below 256).  \<open>utf8_encode\<close> and \<open>utf8_decode\<close> are
  Python's strict \<open>utf-8\<close> codec, \<open>cp1251_decode\<close> its \<open>cp1251\<close> codec, in which the byte
  \<open>0x98\<close> has no character.
\<close>

definition utf8_encode_char :: "nat \<Rightarrow> nat list" where
  "utf8_encode_char c =
     (if c < 128 then [c]
      else if c < 2048 then [192 + c div 64, 128 + c mod 64]
      else if c < 65536 then [224 + c div 4096, 128 + (c div 64) mod 64, 128 + c mod 64]
      else [240 + c div 262144, 128 + (c div 4096) mod 64, 128 + (c div 64) mod 64, 128 + c mod 64])"

definition utf8_encode :: "pystr \<Rightarrow> nat list" where
  "utf8_encode s = concat (map utf8_encode_char s)"

definition is_cont :: "nat \<Rightarrow> bool" where
  "is_cont b = (128 \<le> b \<and> b < 192)"

fun utf8_decode :: "nat list \<Rightarrow> pystr option" where
  "utf8_decode [] = Some []"
| "utf8_decode (b # bs) =
     (if b < 128 then map_option ((#) b) (utf8_decode bs)
      else if 194 \<le> b \<and> b < 224 then
        (case bs of
           c1 # r \<Rightarrow>
             if is_cont c1 then map_option ((#) ((b - 192) * 64 + (c1 - 128))) (utf8_decode r)
             else None
         | _ \<Rightarrow> None)
      else if 224 \<le> b \<and> b < 240 then
        (case bs of
           c1 # c2 # r \<Rightarrow>
             (let cp = (b - 224) * 4096 + (c1 - 128) * 64 + (c2 - 128)
              in if is_cont c1 \<and> is_cont c2 \<and> 2048 \<le> cp \<and> \<not> (55296 \<le> cp \<and> cp < 57344)
                 then map_option ((#) cp) (utf8_decode r) else None)
         | _ \<Rightarrow> None)
      else if 240 \<le> b \<and> b < 245 then
        (case bs of
           c1 # c2 # c3 # r \<Rightarrow>
             (let cp = (b - 240) * 262144 + (c1 - 128) * 4096 + (c2 - 128) * 64 + (c3 - 128)
              in if is_cont c1 \<and> is_cont c2 \<and> is_cont c3 \<and> 65536 \<le> cp \<and> cp < 1114112
                 then map_option ((#) cp) (utf8_decode r) else None)
         | _ \<Rightarrow> None)
      else None)"

definition cp1251_high :: "nat option list" where
  "cp1251_high = map Some
     [1026, 1027, 8218, 1107, 8222, 8230, 8224, 8225, 8364, 8240, 1033, 8249, 1034, 1036, 1035,
      1039, 1106, 8216, 8217, 8220, 8221, 8226, 8211, 8212] @ [None] @ map Some
     [8482, 1113, 8250, 1114, 1116, 1115, 1119, 160, 1038, 1118, 1032, 164, 1168, 166, 167,
      1025, 169, 1028, 171, 172, 173, 174, 1031, 176, 177, 1030, 1110, 1169, 181, 182, 183,
      1105, 8470, 1108, 187, 1112, 1029, 1109, 1111]"

definition cp1251_decode_byte :: "nat \<Rightarrow> nat option" where
  "cp1251_decode_byte b =
     (if b < 128 then Some b
      else if b < 192 then cp1251_high ! (b - 128)
      else if b < 256 then Some (b + 848)
      else None)"

fun cp1251_decode :: "nat list \<Rightarrow> pystr option" where
  "cp1251_decode [] = Some []"
| "cp1251_decode (b # bs) =
     (case cp1251_decode_byte b of
        None \<Rightarrow> None
      | Some c \<Rightarrow> map_option ((#) c) (cp1251_decode bs))"

datatype encoding = UTF8 | CP1251

definition decode :: "encoding \<Rightarrow> nat list \<Rightarrow> pystr option" where
  "decode enc bs = (case enc of UTF8 \<Rightarrow> utf8_decode bs | CP1251 \<Rightarrow> cp1251_decode bs)"

subsection \<open>Data frames\<close>

text \<open>
  A cell of a data frame is missing (\<open>NaN\<close>), an integer or a string; a data frame is its
  columns in order, each a name with its cells; \<open>pd.DataFrame()\<close> has no column.  A
  column of integers with a missing cell is a column of floats in pandas, which shows
  in the \<open>str\<close> of its values.
\<close>

datatype cell = NaN | IntC int | StrC pystr

type_synonym dataframe = "(pystr \<times> cell list) list"

definition df_empty :: "dataframe \<Rightarrow> bool" where
  "df_empty df = (case df of [] \<Rightarrow> True | (name, cells) # _ \<Rightarrow> cells = [])"

definition dropna :: "cell list \<Rightarrow> cell list" where
  "dropna cells = filter (\<lambda>c. c \<noteq> NaN) cells"

definition is_float_column :: "cell list \<Rightarrow> bool" where
  "is_float_column cells =
     (list_ex (\<lambda>c. c = NaN) cells \<and> list_all (\<lambda>c. case c of StrC s \<Rightarrow> False | _ \<Rightarrow> True) cells)"

definition str_cell :: "bool \<Rightarrow> cell \<Rightarrow> pystr" where
  "str_cell fl c =
     (case c of
        NaN \<Rightarrow> asc ''nan''
      | IntC i \<Rightarrow> if fl then str_int i @ asc ''.0'' else str_int i
      | StrC s \<Rightarrow> s)"

subsection \<open>Reading and writing CSV\<close>

text \<open>
  \<open>csv.writer(f).writerows(rows)\<close>: the fields of a row joined by commas, each row ended
  by \<open>\r\n\<close>; a field with a comma, a quote or a line break in it is quoted.
\<close>

definition needs_quotes :: "pystr \<Rightarrow> bool" where
  "needs_quotes s = list_ex (\<lambda>c. c = 44 \<or> c = 34 \<or> c = 13 \<or> c = 10) s"

definition csv_field :: "cell \<Rightarrow> pystr" where
  "csv_field c =
     (let s = str_cell False c
      in if needs_quotes s then [34] @ concat (map (\<lambda>x. if x = 34 then [34, 34] else [x]) s) @ [34]
         else s)"

definition csv_rows :: "cell list list \<Rightarrow> pystr" where
  "csv_rows rs = concat (map (\<lambda>r. py_join [44] (map csv_field r) @ [13, 10]) rs)"

text \<open>
  The fragment of \<open>pandas.read_csv\<close> that the program relies on: the text is cut into
  lines, blank lines are skipped, the first line names the columns and the others are
  cut at the commas; a line with more fields than the header is an error and a line
  with fewer is filled up with missing cells.  A column whose cells are all integer
  literals or missing is numeric, any other column is text; the empty cell and the
  words pandas reads as missing are \<open>NaN\<close>.  (Quoted fields and decimal fractions are
  not part of this fragment.)
\<close>

definition na_words :: "pystr list" where
  "na_words =
     [[], asc ''#N/A'', asc ''#N/A N/A'', asc ''#NA'', asc ''-1.#IND'', asc ''-1.#QNAN'',
      asc ''-NaN'', asc ''-nan'', asc ''1.#IND'', asc ''1.#QNAN'', asc ''<NA>'', asc ''N/A'',
      asc ''NA'', asc ''NULL'', asc ''NaN'', asc ''None'', asc ''n/a'', asc ''nan'', asc ''null'']"

definition is_digit :: "nat \<Rightarrow> bool" where
  "is_digit c = (48 \<le> c \<and> c \<le> 57)"

definition nat_of_digits :: "pystr \<Rightarrow> nat" where
  "nat_of_digits ds = foldl (\<lambda>n d. 10 * n + (d - 48)) 0 ds"

definition int_of_str :: "pystr \<Rightarrow> int option" where
  "int_of_str s =
     (case s of
        [] \<Rightarrow> None
      | c # cs \<Rightarrow>
          if c = 45 \<or> c = 43 then
            (if cs \<noteq> [] \<and> list_all is_digit cs
             then Some ((if c = 45 then - 1 else 1) * int (nat_of_digits cs)) else None)
          else if list_all is_digit s then Some (int (nat_of_digits s)) else None)"

definition typed_column :: "pystr list \<Rightarrow> cell list" where
  "typed_column raw =
     (if list_all (\<lambda>s. s \<in> set na_words \<or> int_of_str s \<noteq> None) raw
      then map (\<lambda>s. if s \<in> set na_words then NaN else IntC (the (int_of_str s))) raw
      else map (\<lambda>s. if s \<in> set na_words then NaN else StrC s) raw)"

definition chomp :: "pystr \<Rightarrow> pystr" where
  "chomp l = (if l \<noteq> [] \<and> last l = 13 then butlast l else l)"

definition text_lines :: "pystr \<Rightarrow> pystr list" where
  "text_lines s = filter (\<lambda>l. l \<noteq> []) (map chomp (split_on 10 s))"

definition pad :: "nat \<Rightarrow> pystr list \<Rightarrow> pystr list" where
  "pad n flds = flds @ replicate (n - length flds) []"

definition parse_csv :: "pystr \<Rightarrow> py_error + dataframe" where
  "parse_csv s =
     (case text_lines s of
        [] \<Rightarrow> Inl EmptyDataError
      | h # ls \<Rightarrow>
          let names = split_on 44 h;
              recs = map (split_on 44) ls
          in if list_ex (\<lambda>r. length names < length r) recs then Inl ParserError
             else Inr (map (\<lambda>i. (names ! i, typed_column (map (\<lambda>r. pad (length names) r ! i) recs)))
                          [0 ..< length names]))"

definition read_csv :: "encoding \<Rightarrow> nat list \<Rightarrow> py_error + dataframe" where
  "read_csv enc bs = (case decode enc bs of None \<Rightarrow> Inl UnicodeDecodeError | Some s \<Rightarrow> parse_csv s)"

subsection \<open>The file\<close>

text \<open>
  The rows \<open>ensure_demo_csv\<close> writes.  The city of the first and the third row is
  Moscow, that of the second Saint Petersburg, both in Russian.
\<close>

definition sample :: "cell list list" where
  "sample =
     [[StrC (asc ''title''), StrC (asc ''city''), StrC (asc ''salary''),
       StrC (asc ''skills''), StrC (asc ''date'')],
      [StrC (asc ''Python developer''), StrC ([1052, 1086, 1089, 1082, 1074, 1072]),
       IntC 180000, StrC (asc ''Django;SQL;Docker''), StrC (asc ''2025-09-10'')],
      [StrC (asc ''Data analyst''), StrC ([1057, 1072, 1085, 1082, 1090, 45, 1055, 1077,
       1090, 1077, 1088, 1073, 1091, 1088, 1075]), IntC 160000,
       StrC (asc ''SQL;Tableau;Python''), StrC (asc ''2025-09-12'')],
      [StrC (asc ''SMM manager''), StrC ([1052, 1086, 1089, 1082, 1074, 1072]),
       IntC 120000, StrC (asc ''Content;UGC;Short video''), StrC (asc ''2025-09-14'')]]"

text \<open>
  The state of \<open>data/demo.csv\<close>: its bytes, or \<open>None\<close> when there is no such file.
\<close>

type_synonym csv_file = "nat list option"

definition ensure_demo_csv :: "csv_file \<Rightarrow> csv_file" where
  "ensure_demo_csv f = (case f of None \<Rightarrow> Some (utf8_encode (csv_rows sample)) | Some bs \<Rightarrow> Some bs)"

text \<open>
  \<open>load_csv_safe\<close>: the second \<open>read_csv\<close> runs in the handler of the first one's
  \<open>UnicodeDecodeError\<close>, so what it raises is not caught by the \<open>except Exception\<close> of
  the same \<open>try\<close>.
\<close>

definition load_csv_safe :: "csv_file \<Rightarrow> (py_error + dataframe) \<times> csv_file" where
  "load_csv_safe f =
     (let f1 = ensure_demo_csv f;
          bs = (case f1 of None \<Rightarrow> [] | Some b \<Rightarrow> b)
      in (case read_csv UTF8 bs of
            Inr df \<Rightarrow> Inr df
          | Inl UnicodeDecodeError \<Rightarrow> read_csv CP1251 bs
          | Inl e \<Rightarrow> Inr [],
          f1))"

subsection \<open>The report\<close>

text \<open>
  \<open>series.astype(float)\<close> and \<open>.mean()\<close>.  The mean of integers is taken exactly; for
  sums below \<open>2\<^sup>5\<^sup>3\<close> the float that pandas computes rounds to the same integer.  A
  string cell is converted when it is an integer literal and is a \<open>ValueError\<close>
  otherwise.  \<open>round_div s n\<close> is \<open>round(s / n)\<close>, which rounds a half to the even side.
\<close>

fun astype_float :: "cell list \<Rightarrow> py_error + int option list" where
  "astype_float [] = Inr []"
| "astype_float (c # cs) =
     ebind (case c of
              NaN \<Rightarrow> Inr None
            | IntC i \<Rightarrow> Inr (Some i)
            | StrC s \<Rightarrow> (case int_of_str s of None \<Rightarrow> Inl ValueError | Some i \<Rightarrow> Inr (Some i)))
           (\<lambda>v. ebind (astype_float cs) (\<lambda>vs. Inr (v # vs)))"

definition round_div :: "int \<Rightarrow> int \<Rightarrow> int" where
  "round_div s n =
     (let q = s div n; r = s mod n
      in if 2 * r < n then q
         else if n < 2 * r then q + 1
         else if even q then q else q + 1)"

text \<open>The rounded mean, or \<open>None\<close> when the mean is \<open>NaN\<close> (no value to average).\<close>

definition rounded_mean :: "int option list \<Rightarrow> int option" where
  "rounded_mean vs =
     (let xs = concat (map (\<lambda>v. case v of None \<Rightarrow> [] | Some i \<Rightarrow> [i]) vs)
      in if xs = [] then None else Some (round_div (sum_list xs) (int (length xs))))"

text \<open>
  \<open>series.value_counts()\<close>: the distinct values in the order of their first occurrence
  with their numbers of occurrences, sorted by number, the largest first; values that
  occur equally often stay in the order of their first occurrence.
\<close>

definition value_counts :: "'a list \<Rightarrow> ('a \<times> nat) list" where
  "value_counts xs =
     sort_key (\<lambda>p. - int (snd p)) (map (\<lambda>x. (x, count_list xs x)) (rev (remdups (rev xs))))"

definition top_values :: "nat \<Rightarrow> cell list \<Rightarrow> pystr list" where
  "top_values n cells =
     map (\<lambda>p. escape (str_cell (is_float_column cells) (fst p))) (take n (value_counts (dropna cells)))"

definition skill_tokens :: "cell list \<Rightarrow> pystr list" where
  "skill_tokens cells =
     split_on 59 (py_join [59] (map (str_cell (is_float_column cells)) (dropna cells)))"

definition top_skills :: "cell list \<Rightarrow> pystr list" where
  "top_skills cells = map (\<lambda>p. escape (fst p)) (take 10 (value_counts (skill_tokens cells)))"

definition NO_DATA :: pystr where
  "NO_DATA =
     [9888, 65039, 32, 1044, 1072, 1085, 1085, 1099, 1077, 32, 1086, 1090, 1089, 1091,
     1090, 1089, 1090, 1074, 1091, 1102, 1090, 32, 1080, 1083, 1080] @
     asc '' CSV '' @ [1085, 1077, 1082, 1086, 1088, 1088, 1077, 1082, 1090, 1077, 1085, 46]"

definition REPORT_ERROR :: pystr where
  "REPORT_ERROR =
     [9888, 65039, 32, 1054, 1096, 1080, 1073, 1082, 1072, 32, 1092, 1086, 1088, 1084,
     1080, 1088, 1086, 1074, 1072, 1085, 1080, 1103, 32, 1086, 1090, 1095, 1105, 1090,
     1072, 46]"

definition REPORT_HEADER :: pystr where
  "REPORT_HEADER =
     asc ''<b>'' @
     [128202, 32, 1040, 1085, 1072, 1083, 1080, 1090, 1080, 1095, 1077, 1089, 1082, 1080,
     1081, 32, 1086, 1090, 1095, 1105, 1090] @
     asc '' (demo.csv)</b>''"

definition SALARY_LABEL :: pystr where
  "SALARY_LABEL =
     [128176, 32, 1057, 1088, 1077, 1076, 1085, 1103, 1103, 32, 1079, 1072, 1088, 1087,
     1083, 1072, 1090, 1072] @
     asc '': <b>''"

definition SALARY_END :: pystr where
  "SALARY_END =
     [32, 8381] @ asc ''</b>''"

definition CITIES_LABEL :: pystr where
  "CITIES_LABEL =
     [127961, 65039, 32, 1058, 1086, 1087, 32, 1075, 1086, 1088, 1086, 1076, 1086, 1074,
     58, 32]"

definition TITLES_LABEL :: pystr where
  "TITLES_LABEL =
     [128188, 32, 1058, 1086, 1087, 32, 1074, 1072, 1082, 1072, 1085, 1089, 1080, 1081, 58,
     32]"

definition SKILLS_LABEL :: pystr where
  "SKILLS_LABEL =
     [128293, 32, 1063, 1072, 1089, 1090, 1099, 1077, 32, 1085, 1072, 1074, 1099, 1082,
     1080, 58, 32]"

definition REPORT_FOOTER :: pystr where
  "REPORT_FOOTER =
     [10, 9888, 65039, 32, 1069, 1090, 1086, 32, 1076, 1077, 1084, 1086, 1085, 1089, 1090,
     1088, 1072, 1094, 1080, 1086, 1085, 1085, 1099, 1081, 32, 1086, 1090, 1095, 1105,
     1090, 46, 32, 1054, 1090, 1074, 1077, 1090, 32, 1089, 1086, 1089, 1090, 1072, 1074,
     1083, 1077, 1085, 32, 1073, 1086, 1090, 1086, 1084, 45, 1072, 1089, 1089, 1080, 1089,
     1090, 1077, 1085, 1090, 1086, 1084, 46]"

text \<open>
  The lines of the report of a data frame that is not empty, as the \<open>try\<close> block builds
  them; the only exception that can arise there is the \<open>ValueError\<close> of \<open>astype(float)\<close>.
\<close>

definition labelled :: "pystr \<Rightarrow> pystr list \<Rightarrow> pystr list" where
  "labelled label values = (if values = [] then [] else [label @ py_join (asc '', '') values])"

definition report_parts :: "dataframe \<Rightarrow> py_error + pystr list" where
  "report_parts df =
     ebind (case map_of df (asc ''salary'') of
              None \<Rightarrow> Inr None
            | Some cells \<Rightarrow> ebind (astype_float cells) (\<lambda>vs. Inr (rounded_mean vs)))
       (\<lambda>avg.
          Inr ([REPORT_HEADER]
               @ (case avg of None \<Rightarrow> [] | Some a \<Rightarrow> [SALARY_LABEL @ format_thousands a @ SALARY_END])
               @ (case map_of df (asc ''city'') of None \<Rightarrow> [] | Some cells \<Rightarrow> labelled CITIES_LABEL (top_values 5 cells))
               @ (case map_of df (asc ''title'') of None \<Rightarrow> [] | Some cells \<Rightarrow> labelled TITLES_LABEL (top_values 5 cells))
               @ (case map_of df (asc ''skills'') of None \<Rightarrow> [] | Some cells \<Rightarrow> labelled SKILLS_LABEL (top_skills cells))
               @ [REPORT_FOOTER]))"

definition report_of :: "dataframe \<Rightarrow> pystr" where
  "report_of df =
     (if df_empty df then NO_DATA
      else (case report_parts df of Inl e \<Rightarrow> REPORT_ERROR | Inr parts \<Rightarrow> py_join [10] parts))"

text \<open>
  \<open>generate_report_from_demo\<close>: \<open>load_csv_safe\<close> is called outside the \<open>try\<close>, so what
  it raises leaves the function.
\<close>

definition generate_report_from_demo :: "csv_file \<Rightarrow> (py_error + pystr) \<times> csv_file" where
  "generate_report_from_demo f =
     (case load_csv_safe f of
        (Inl e, f1) \<Rightarrow> (Inl e, f1)
      | (Inr df, f1) \<Rightarrow> (Inr (report_of df), f1))"

section \<open>The command handlers\<close>

text \<open>
  An incoming message, an outgoing one, and the state the handlers work on: the
  database, the demo file, the messages sent so far and the HTTP requests sent so far.
  \<open>bot.reply_to\<close> and \<open>bot.send_message\<close> without \<open>parse_mode\<close> send plain text, since the
  bot is created without a default parse mode.  A handler returns the exception that
  leaves it, if any, and the state; what it has done before the exception stays done.
\<close>

record message =
  from_user :: tg_user
  chat_id :: int
  msg_text :: "pystr option"

record out_message =
  out_chat :: int
  out_text :: pystr
  parse_mode :: "pystr option"
  with_keyboard :: bool
  as_reply :: bool

record state =
  database :: db
  demo_file :: csv_file
  outbox :: "out_message list"
  net_log :: "request list"

definition send :: "state \<Rightarrow> out_message \<Rightarrow> state" where
  "send st m = st\<lparr>outbox := outbox st @ [m]\<rparr>"

definition reply_to :: "message \<Rightarrow> pystr \<Rightarrow> bool \<Rightarrow> out_message" where
  "reply_to m t kb =
     \<lparr>out_chat = chat_id m, out_text = t, parse_mode = None, with_keyboard = kb, as_reply = True\<rparr>"

definition send_html :: "message \<Rightarrow> pystr \<Rightarrow> out_message" where
  "send_html m t =
     \<lparr>out_chat = chat_id m, out_text = t, parse_mode = Some (asc ''HTML''), with_keyboard = True,
      as_reply = False\<rparr>"

definition html_messages :: "state \<Rightarrow> out_message list" where
  "html_messages st = filter (\<lambda>m. parse_mode m = Some (asc ''HTML'')) (outbox st)"

subsection \<open>preset_del\<close>

definition USAGE_PRESET_DEL :: pystr where
  "USAGE_PRESET_DEL =
     [1048, 1089, 1087, 1086, 1083, 1100, 1079, 1086, 1074, 1072, 1085, 1080, 1077] @
     asc '': /preset_del '' @ [1080, 1084, 1103]"

definition DELETED_A :: pystr where
  "DELETED_A =
     [128465, 32, 1055, 1088, 1077, 1089, 1077, 1090, 32, 39]"

definition DELETED_B :: pystr where
  "DELETED_B =
     [39, 32, 1091, 1076, 1072, 1083, 1105, 1085, 46]"

text \<open>\<open>_, name = message.text.split(maxsplit=1)\<close> inside its \<open>try\<close>.\<close>

definition command_argument :: "message \<Rightarrow> py_error + pystr" where
  "command_argument m =
     (case msg_text m of
        None \<Rightarrow> Inl AttributeError
      | Some t \<Rightarrow> (case py_split 1 t of [c, name] \<Rightarrow> Inr name | _ \<Rightarrow> Inl ValueError))"

definition handle_preset_del :: "message \<Rightarrow> pystr \<Rightarrow> state \<Rightarrow> py_error option \<times> state" where
  "handle_preset_del m now st =
     (case command_argument m of
        Inl e \<Rightarrow> (None, send st (reply_to m USAGE_PRESET_DEL False))
      | Inr name \<Rightarrow>
          (case delete_preset_db (database st) (uid (from_user m)) name of
             Inl e \<Rightarrow> (Some e, st)
           | Inr d1 \<Rightarrow>
               (case log_query d1 (uid (from_user m)) (asc ''/preset_del '' @ name) (asc ''command'') None now of
                  Inl e \<Rightarrow> (Some e, st\<lparr>database := d1\<rparr>)
                | Inr (d2, qid) \<Rightarrow>
                    (None, send (st\<lparr>database := d2\<rparr>)
                             (reply_to m (DELETED_A @ escape name @ DELETED_B) False)))))"

subsection \<open>ask and news\<close>

definition USAGE_ASK :: pystr where
  "USAGE_ASK =
     [1048, 1089, 1087, 1086, 1083, 1100, 1079, 1086, 1074, 1072, 1085, 1080, 1077] @
     asc '': /ask '' @
     [1090, 1077, 1082, 1089, 1090, 95, 1074, 1086, 1087, 1088, 1086, 1089, 1072]"

definition ASK_FAILED :: pystr where
  "ASK_FAILED =
     [9888, 65039, 32, 1054, 1096, 1080, 1073, 1082, 1072, 32, 1087, 1088, 1080, 32, 1086,
     1073, 1088, 1072, 1097, 1077, 1085, 1080, 1080, 32, 1082, 32, 1085, 1077, 1081, 1088,
     1086, 1089, 1077, 1090, 1080, 58, 32]"

definition USAGE_NEWS :: pystr where
  "USAGE_NEWS =
     [1048, 1089, 1087, 1086, 1083, 1100, 1079, 1086, 1074, 1072, 1085, 1080, 1077] @
     asc '': /news '' @ [1090, 1077, 1084, 1072]"

definition NEWS_FAILED :: pystr where
  "NEWS_FAILED =
     [9888, 65039, 32, 1054, 1096, 1080, 1073, 1082, 1072, 32, 1087, 1088, 1080, 32, 1087,
     1086, 1083, 1091, 1095, 1077, 1085, 1080, 1080, 32, 1085, 1086, 1074, 1086, 1089,
     1090, 1077, 1081, 58, 32]"

definition NO_NEWS :: pystr where
  "NO_NEWS =
     [128240, 32, 1053, 1086, 1074, 1086, 1089, 1090, 1077, 1081, 32, 1085, 1077, 32, 1085,
     1072, 1081, 1076, 1077, 1085, 1086, 32, 1080, 1083, 1080, 32, 1089, 1077, 1088, 1074,
     1080, 1089, 32, 1085, 1077, 1076, 1086, 1089, 1090, 1091, 1087, 1077, 1085, 46]"

definition handle_ask :: "env \<Rightarrow> message \<Rightarrow> pystr \<Rightarrow> state \<Rightarrow> py_error option \<times> state" where
  "handle_ask E m now st =
     (case msg_text m of
        None \<Rightarrow> (Some AttributeError, st)
      | Some t \<Rightarrow>
          let question = strip (after_first_space t)
          in if question = [] then (None, send st (reply_to m USAGE_ASK False))
             else
               (case log_query (database st) (uid (from_user m)) question (asc ''ask'') None now of
                  Inl e \<Rightarrow> (Some e, st)
                | Inr (d1, qid) \<Rightarrow>
                    let res = ask_neuron E question;
                        st1 = st\<lparr>database := d1, net_log := net_log st @ snd res\<rparr>
                    in (case fst res of
                          Inl e \<Rightarrow> (None, send st1 (reply_to m (ASK_FAILED @ escape (str_exc E e)) False))
                        | Inr answer \<Rightarrow>
                            (case escape_value answer of
                               Inl e \<Rightarrow> (Some e, st1)
                             | Inr t \<Rightarrow> (None, send st1 (send_html m t))))))"

definition handle_news :: "env \<Rightarrow> message \<Rightarrow> pystr \<Rightarrow> state \<Rightarrow> py_error option \<times> state" where
  "handle_news E m now st =
     (case msg_text m of
        None \<Rightarrow> (Some AttributeError, st)
      | Some t \<Rightarrow>
          let topic = strip (after_first_space t)
          in if topic = [] then (None, send st (reply_to m USAGE_NEWS False))
             else
               (case log_query (database st) (uid (from_user m)) topic (asc ''news'') None now of
                  Inl e \<Rightarrow> (Some e, st)
                | Inr (d1, qid) \<Rightarrow>
                    let res = get_news E topic 5;
                        st1 = st\<lparr>database := d1, net_log := net_log st @ snd res\<rparr>
                    in (case fst res of
                          Inl e \<Rightarrow> (None, send st1 (reply_to m (NEWS_FAILED @ escape (str_exc E e)) False))
                        | Inr articles \<Rightarrow>
                            if articles = [] then (None, send st1 (reply_to m NO_NEWS True))
                            else (None, send st1 (send_html m (py_join [10, 10] articles))))))"

subsection \<open>start and report\<close>

definition START_A :: pystr where
  "START_A =
     [128075, 32, 1055, 1088, 1080, 1074, 1077, 1090] @ asc '', <b>''"

definition START_B :: pystr where
  "START_B =
     asc ''</b>!'' @
     [10, 10, 1071, 32, 8212, 32, 1055, 1086, 1084, 1086, 1097, 1085, 1080, 1082, 95, 1040,
     1085, 1072, 1083, 1080, 1090, 1080, 1082, 1072, 46, 32, 1042, 1099, 1073, 1077, 1088,
     1080, 32, 1076, 1077, 1081, 1089, 1090, 1074, 1080, 1077, 58, 10, 10, 8226, 32, 1048,
     1089, 1087, 1086, 1083, 1100, 1079, 1091, 1081, 32, 1082, 1086, 1084, 1072, 1085,
     1076, 1091] @
     asc '' /ask  '' @
     [1095, 1090, 1086, 1073, 1099, 32, 1079, 1072, 1076, 1072, 1090, 1100, 32, 1074, 1086,
     1087, 1088, 1086, 1089, 32, 1085, 1077, 1081, 1088, 1086, 1089, 1077, 1090, 1080, 10,
     8226, 32, 1048, 1089, 1087, 1086, 1083, 1100, 1079, 1091, 1081, 32, 1082, 1086, 1084,
     1072, 1085, 1076, 1091] @
     asc '' /news '' @
     [1095, 1090, 1086, 1073, 1099, 32, 1087, 1086, 1083, 1091, 1095, 1080, 1090, 1100, 32,
     1085, 1086, 1074, 1086, 1089, 1090, 1080, 32, 1087, 1086, 32, 1090, 1077, 1084, 1077,
     10, 10, 1048, 1083, 1080, 32, 1074, 1099, 1073, 1077, 1088, 1080, 32, 1087, 1091,
     1085, 1082, 1090, 32, 1074, 32, 1084, 1077, 1085, 1102, 32, 1085, 1080, 1078, 1077, 46]"

text \<open>\<open>first_name or username\<close>, and \<open>escape\<close> of it, which fails on \<open>None\<close>.\<close>

definition display_name :: "tg_user \<Rightarrow> pystr option" where
  "display_name u =
     (case first_name u of
        None \<Rightarrow> username u
      | Some s \<Rightarrow> if s = [] then username u else Some s)"

definition handle_start :: "message \<Rightarrow> pystr \<Rightarrow> state \<Rightarrow> py_error option \<times> state" where
  "handle_start m now st =
     (case register_user (database st) (from_user m) now of
        Inl e \<Rightarrow> (Some e, st)
      | Inr d1 \<Rightarrow>
          (case display_name (from_user m) of
             None \<Rightarrow> (Some AttributeError, st\<lparr>database := d1\<rparr>)
           | Some n \<Rightarrow> (None, send (st\<lparr>database := d1\<rparr>) (send_html m (START_A @ escape n @ START_B)))))"

definition handle_report_cmd :: "message \<Rightarrow> pystr \<Rightarrow> state \<Rightarrow> py_error option \<times> state" where
  "handle_report_cmd m now st =
     (case log_query (database st) (uid (from_user m)) (asc ''/report'') (asc ''command'') None now of
        Inl e \<Rightarrow> (Some e, st)
      | Inr (d1, qid) \<Rightarrow>
          let res = generate_report_from_demo (demo_file st);
              st1 = st\<lparr>database := d1, demo_file := snd res\<rparr>
          in (case fst res of
                Inl e \<Rightarrow> (Some e, st1)
              | Inr report \<Rightarrow> (None, send st1 (send_html m report))))"

section \<open>What the properties speak about\<close>

text \<open>
  The texts of the messages that a handler run has added to the outbox with
  \<open>parse_mode="HTML"\<close>.
\<close>

definition sent_html :: "state \<Rightarrow> py_error option \<times> state \<Rightarrow> pystr list" where
  "sent_html st r =
     map out_text (filter (\<lambda>m. parse_mode m = Some (asc ''HTML''))
                          (drop (length (outbox st)) (outbox (snd r))))"

text \<open>An environment with no OpenRouter key and an empty NewsAPI key.\<close>

definition no_keys_env :: env where
  "no_keys_env =
     \<lparr>OPENROUTER_API_KEY = None, NEWS_API_KEY = Some [],
      requests_post = (\<lambda>r. Raises (asc ''unreachable'')),
      requests_get = (\<lambda>r. Raises (asc ''unreachable'')),
      py_repr = (\<lambda>j. []), interp_text = (\<lambda>e. [])\<rparr>"

text \<open>
  The shape of a report line: \<open>fits pre suf ok p\<close> says that \<open>p\<close> is \<open>pre\<close>, then a text
  accepted by \<open>ok\<close>, then \<open>suf\<close>.
\<close>

definition fits :: "pystr \<Rightarrow> pystr \<Rightarrow> (pystr \<Rightarrow> bool) \<Rightarrow> pystr \<Rightarrow> bool" where
  "fits pre suf ok p =
     (length pre + length suf \<le> length p \<and> take (length pre) p = pre \<and>
      drop (length p - length suf) p = suf \<and>
      ok (take (length p - length pre - length suf) (drop (length pre) p)))"

definition number_text :: "pystr \<Rightarrow> bool" where
  "number_text s = list_all (\<lambda>c. is_digit c \<or> c = 44 \<or> c = 45) s"

definition report_line_ok :: "pystr \<Rightarrow> bool" where
  "report_line_ok p =
     (p = REPORT_HEADER \<or> p = REPORT_FOOTER \<or> fits SALARY_LABEL SALARY_END number_text p \<or>
      fits CITIES_LABEL [] html_safe p \<or> fits TITLES_LABEL [] html_safe p \<or>
      fits SKILLS_LABEL [] html_safe p)"

text \<open>
  No row of \<open>presets\<close> has this user and this name; a state with the new database, and the
  message \<open>/preset_del x\<close> from Ann.
\<close>

definition no_matching_preset :: "db \<Rightarrow> int \<Rightarrow> pystr \<Rightarrow> bool" where
  "no_matching_preset d u n =
     (case d ''presets'' of
        None \<Rightarrow> True
      | Some T \<Rightarrow> list_all (\<lambda>r. \<not> preset_matches T u n r) (rows T))"

definition fresh_state :: state where
  "fresh_state = \<lparr>database = fresh_db, demo_file = None, outbox = [], net_log = []\<rparr>"

definition preset_del_x :: message where
  "preset_del_x = \<lparr>from_user = ann, chat_id = 7, msg_text = Some (asc ''/preset_del x'')\<rparr>"

text \<open>A Unicode scalar value: a code point that is not a surrogate.\<close>

definition scalar :: "nat \<Rightarrow> bool" where
  "scalar c = (c < 55296 \<or> (57344 \<le> c \<and> c < 1114112))"

text \<open>
  The text of the demo file that \<open>ensure_demo_csv\<close> writes, the data frame read from it,
  the two cities, the titles, and the skills of all rows cut at the semicolons.
\<close>

definition MOSCOW :: pystr where
  "MOSCOW = [1052, 1086, 1089, 1082, 1074, 1072]"

definition SAINT_PETERSBURG :: pystr where
  "SAINT_PETERSBURG = [1057, 1072, 1085, 1082, 1090, 45, 1055, 1077, 1090, 1077, 1088, 1073, 1091, 1088,
     1075]"

definition demo_text :: pystr where
  "demo_text =
     asc ''title,city,salary,skills,date'' @ [13, 10] @ asc ''Python developer,'' @
     [1052, 1086, 1089, 1082, 1074, 1072] @ asc '',180000,Django;SQL;Docker,2025-09-10'' @
     [13, 10] @ asc ''Data analyst,'' @
     [1057, 1072, 1085, 1082, 1090, 45, 1055, 1077, 1090, 1077, 1088, 1073, 1091, 1088,
     1075] @
     asc '',160000,SQL;Tableau;Python,2025-09-12'' @ [13, 10] @ asc ''SMM manager,'' @
     [1052, 1086, 1089, 1082, 1074, 1072] @
     asc '',120000,Content;UGC;Short video,2025-09-14'' @ [13, 10]"

definition demo_frame :: dataframe where
  "demo_frame =
      [(asc ''title'',
        [StrC (asc ''Python developer''),
         StrC (asc ''Data analyst''),
         StrC (asc ''SMM manager'')]),
       (asc ''city'',
        [StrC ([1052, 1086, 1089, 1082, 1074, 1072]),
         StrC ([1057, 1072, 1085, 1082, 1090, 45, 1055, 1077, 1090, 1077, 1088, 1073, 1091, 1088, 1075]),
         StrC ([1052, 1086, 1089, 1082, 1074, 1072])]),
       (asc ''salary'',
        [IntC 180000,
         IntC 160000,
         IntC 120000]),
       (asc ''skills'',
        [StrC (asc ''Django;SQL;Docker''),
         StrC (asc ''SQL;Tableau;Python''),
         StrC (asc ''Content;UGC;Short video'')]),
       (asc ''date'',
        [StrC (asc ''2025-09-10''),
         StrC (asc ''2025-09-12''),
         StrC (asc ''2025-09-14'')])]"

definition demo_titles :: "cell list" where
  "demo_titles = [StrC (asc ''Python developer''), StrC (asc ''Data analyst''), StrC (asc ''SMM manager'')]"

definition demo_tokens :: "pystr list" where
  "demo_tokens =
     [asc ''Django'', asc ''SQL'', asc ''Docker'', asc ''SQL'', asc ''Tableau'', asc ''Python'',
      asc ''Content'', asc ''UGC'', asc ''Short video'']"
section \<open>The migration\<close>

lemma nocase_tables [simp]:
  "nocase ''users'' = ''users''" "nocase ''queries'' = ''queries''" "nocase ''presets'' = ''presets''"
  by (simp_all add: nocase_def nocase_char_def)

lemma find_table_names [simp]:
  "find_table d ''users'' = d ''users''" "find_table d ''queries'' = d ''queries''"
  "find_table d ''presets'' = d ''presets''"
  by (simp_all add: find_table_def)

lemma nocase_migrated: "c \<in> set (migrated_columns t) \<Longrightarrow> nocase c = c"
  by (auto simp: migrated_columns_def nocase_def nocase_char_def split: if_splits)

lemma nocase_target: "c \<in> set (target_columns t) \<Longrightarrow> nocase c = c"
  by (auto simp: target_columns_def users_columns_def queries_columns_def presets_columns_def
      nocase_def nocase_char_def split: if_splits)

lemma upgraded_Nil: "upgraded [] T = T"
  by (simp add: upgraded_def)

lemma upgraded_Cons_in: "c \<in> set (cols T) \<Longrightarrow> upgraded (c # cs) T = upgraded cs T"
  by (simp add: upgraded_def)

lemma upgraded_Cons_out:
  "c \<notin> set (cols T) \<Longrightarrow> c \<notin> set cs \<Longrightarrow>
   upgraded cs (T\<lparr>cols := cols T @ [c], rows := map (\<lambda>r. r @ [Null]) (rows T)\<rparr>) = upgraded (c # cs) T"
proof -
  assume a: "c \<notin> set (cols T)" "c \<notin> set cs"
  have "filter (\<lambda>x. x \<noteq> c \<and> x \<notin> set (cols T)) cs = filter (\<lambda>x. x \<notin> set (cols T)) cs"
    using a(2) by (intro filter_cong) auto
  then show ?thesis using a
    by (simp add: upgraded_def o_def replicate_app_Cons_same)
qed

text \<open>
  A column that Python does not find among the columns is not there for SQLite either,
  when the columns that differ from it in case only are excluded.
\<close>

lemma absent_nocase:
  assumes "c \<notin> set (cols T)" and "nocase c = c"
    and "list_all (\<lambda>x. nocase x \<in> set (c # cs) \<longrightarrow> nocase x = x) (cols T)"
  shows "nocase c \<notin> set (map nocase (cols T))"
proof
  assume "nocase c \<in> set (map nocase (cols T))"
  then obtain x where x: "x \<in> set (cols T)" "nocase x = nocase c" by auto
  with assms(2) have "nocase x \<in> set (c # cs)" by simp
  with assms(3) x(1) have "nocase x = x" unfolding list_all_iff by blast
  with x assms(1,2) show False by simp
qed

lemma add_columns_loop_upgraded:
  "nocase t = t \<Longrightarrow> d t = Some T \<Longrightarrow> distinct cs \<Longrightarrow> list_all (\<lambda>c. nocase c = c) cs \<Longrightarrow>
   list_all (\<lambda>x. nocase x \<in> set cs \<longrightarrow> nocase x = x) (cols T) \<Longrightarrow>
   add_columns_loop t cs d = Inr (d(t \<mapsto> upgraded cs T))"
proof (induction cs arbitrary: d T)
  case Nil
  then show ?case by (simp add: upgraded_Nil map_upd_triv)
next
  case (Cons c cs)
  have sub: "list_all (\<lambda>x. nocase x \<in> set cs \<longrightarrow> nocase x = x) (cols T)"
    using Cons.prems(5) by (simp add: list_all_iff)
  have ft: "find_table d t = Some T"
    using Cons.prems(1,2) by (simp add: find_table_def)
  show ?case
  proof (cases "c \<in> set (cols T)")
    case True
    have first: "add_if_missing t c d = Inr d"
      using True ft by (simp add: add_if_missing_def column_exists_def)
    have "add_columns_loop t (c # cs) d = add_columns_loop t cs d"
      unfolding add_columns_loop.simps first by (simp add: ebind_def)
    also have "\<dots> = Inr (d(t \<mapsto> upgraded cs T))"
      using Cons.prems sub by (intro Cons.IH) simp_all
    also have "\<dots> = Inr (d(t \<mapsto> upgraded (c # cs) T))"
      using True by (simp add: upgraded_Cons_in)
    finally show ?thesis .
  next
    case False
    let ?T = "T\<lparr>cols := cols T @ [c], rows := map (\<lambda>r. r @ [Null]) (rows T)\<rparr>"
    have nc: "nocase c = c" using Cons.prems(4) by simp
    have absent: "nocase c \<notin> set (map nocase (cols T))"
      using False nc Cons.prems(5) by (rule absent_nocase)
    have ih: "add_columns_loop t cs (d(t \<mapsto> ?T)) = Inr ((d(t \<mapsto> ?T))(t \<mapsto> upgraded cs ?T))"
      using Cons.prems sub nc by (intro Cons.IH) simp_all
    have up: "upgraded cs ?T = upgraded (c # cs) T"
      using False Cons.prems by (intro upgraded_Cons_out) auto
    have first: "add_if_missing t c d = Inr (d(t \<mapsto> ?T))"
      using False absent ft Cons.prems(1)
      by (simp add: add_if_missing_def column_exists_def add_column_def)
    have "add_columns_loop t (c # cs) d = add_columns_loop t cs (d(t \<mapsto> ?T))"
      unfolding add_columns_loop.simps first by (simp add: ebind_def)
    also have "\<dots> = Inr ((d(t \<mapsto> ?T))(t \<mapsto> upgraded cs ?T))"
      by (rule ih)
    also have "\<dots> = Inr (d(t \<mapsto> upgraded (c # cs) T))"
      unfolding up by simp
    finally show ?thesis .
  qed
qed

lemma migrate_table:
  assumes t: "t \<in> {''users'', ''queries'', ''presets''}" and T: "d t = Some T" and m: "migratable t T"
  shows "add_columns_loop t (migrated_columns t) d = Inr (d(t \<mapsto> upgraded (migrated_columns t) T))"
proof -
  have "nocase t = t" using t by auto
  moreover have "distinct (migrated_columns t)"
    by (simp add: migrated_columns_def)
  moreover have "list_all (\<lambda>c. nocase c = c) (migrated_columns t)"
    by (simp add: list_all_iff nocase_migrated)
  moreover have "list_all (\<lambda>x. nocase x \<in> set (migrated_columns t) \<longrightarrow> nocase x = x) (cols T)"
    using m by (simp add: migratable_def)
  ultimately show ?thesis using T by (intro add_columns_loop_upgraded)
qed

lemma ensure_users_eq:
  assumes "case d ''users'' of None \<Rightarrow> True | Some T \<Rightarrow> migratable ''users'' T"
  shows "ensure_users d = Inr (d(''users'' \<mapsto> ensured_table ''users'' (d ''users'')))"
proof (cases "d ''users''")
  case None
  then show ?thesis
    by (simp add: ensure_users_def table_exists_def create_table_def ensured_table_def fresh_table_def
        target_columns_def users_columns_def)
next
  case (Some T)
  with assms have m: "migratable ''users'' T" by simp
  have "add_columns_loop ''users'' (migrated_columns ''users'') d
      = Inr (d(''users'' \<mapsto> upgraded (migrated_columns ''users'') T))"
    using Some m by (intro migrate_table) simp_all
  then show ?thesis using Some m
    by (simp add: ensure_users_def table_exists_def ensured_table_def migrated_columns_def ebind_def
        migratable_def split: sum.splits)
qed

lemma ensure_queries_eq:
  assumes "case d ''queries'' of None \<Rightarrow> True | Some T \<Rightarrow> migratable ''queries'' T"
  shows "ensure_queries d = Inr (d(''queries'' \<mapsto> ensured_table ''queries'' (d ''queries'')))"
proof (cases "d ''queries''")
  case None
  then show ?thesis
    by (simp add: ensure_queries_def table_exists_def create_table_def ensured_table_def fresh_table_def
        target_columns_def queries_columns_def)
next
  case (Some T)
  with assms have m: "migratable ''queries'' T" by simp
  have "add_columns_loop ''queries'' (migrated_columns ''queries'') d
      = Inr (d(''queries'' \<mapsto> upgraded (migrated_columns ''queries'') T))"
    using Some m by (intro migrate_table) simp_all
  then show ?thesis using Some m
    by (simp add: ensure_queries_def table_exists_def ensured_table_def migrated_columns_def
        migratable_def)
qed

lemma ensure_presets_eq:
  assumes "case d ''presets'' of None \<Rightarrow> True | Some T \<Rightarrow> migratable ''presets'' T"
  shows "ensure_presets d = Inr (d(''presets'' \<mapsto> ensured_table ''presets'' (d ''presets'')))"
proof (cases "d ''presets''")
  case None
  then show ?thesis
    by (simp add: ensure_presets_def table_exists_def create_table_def ensured_table_def fresh_table_def
        target_columns_def presets_columns_def)
next
  case (Some T)
  with assms have m: "migratable ''presets'' T" by simp
  have "add_columns_loop ''presets'' (migrated_columns ''presets'') d
      = Inr (d(''presets'' \<mapsto> upgraded (migrated_columns ''presets'') T))"
    using Some m by (intro migrate_table) simp_all
  then show ?thesis using Some m
    by (simp add: ensure_presets_def table_exists_def ensured_table_def migrated_columns_def ebind_def
        migratable_def split: sum.splits)
qed

lemma ensure_tables_and_columns_eq:
  "schema_names_ok d \<Longrightarrow> ensure_tables_and_columns d = Inr (ensured_db d)"
  by (simp add: schema_names_ok_def ensure_tables_and_columns_def ensure_users_eq ensure_queries_eq
      ensure_presets_eq ebind_def ensured_db_def)

lemma upgraded_idem: "upgraded cs (upgraded cs T) = upgraded cs T"
proof -
  have "filter (\<lambda>c. c \<notin> set (cols (upgraded cs T))) cs = []"
    by (auto simp: upgraded_def filter_empty_conv)
  then show ?thesis
    by (simp add: upgraded_def [of cs "upgraded cs T"])
qed

lemma upgraded_fresh: "upgraded (migrated_columns t) (fresh_table t) = fresh_table t"
proof -
  have "filter (\<lambda>c. c \<notin> set (cols (fresh_table t))) (migrated_columns t) = []"
    by (simp add: fresh_table_def migrated_columns_def target_columns_def users_columns_def
        queries_columns_def presets_columns_def)
  then show ?thesis
    by (simp add: upgraded_def fresh_table_def)
qed

lemma ensured_table_idem: "ensured_table t (Some (ensured_table t x)) = ensured_table t x"
  by (cases x) (simp_all add: ensured_table_def upgraded_idem upgraded_fresh)

lemma ensured_db_idem: "ensured_db (ensured_db d) = ensured_db d"
  by (simp add: ensured_db_def ensured_table_idem fun_upd_twist)

lemma ensured_db_at:
  "ensured_db d t = (if t \<in> {''users'', ''queries'', ''presets''} then Some (ensured_table t (d t)) else d t)"
  by (simp add: ensured_db_def)

lemma migratable_fresh: "migratable t (fresh_table t)"
  by (auto simp: migratable_def fresh_table_def list_all_iff nocase_target)

lemma migratable_upgraded: "migratable t T \<Longrightarrow> migratable t (upgraded (migrated_columns t) T)"
  by (auto simp: migratable_def upgraded_def list_all_iff nocase_migrated)

lemma migratable_ensured:
  "(case x of None \<Rightarrow> True | Some T \<Rightarrow> migratable t T) \<Longrightarrow> migratable t (ensured_table t x)"
  by (cases x) (simp_all add: ensured_table_def migratable_fresh migratable_upgraded)

lemma schema_names_ok_ensured: "schema_names_ok d \<Longrightarrow> schema_names_ok (ensured_db d)"
  by (simp add: schema_names_ok_def ensured_db_at migratable_ensured)

lemma upgraded_single:
  "filter (\<lambda>c. c \<notin> set (cols T)) cs = [c] \<Longrightarrow>
   upgraded cs T = T\<lparr>cols := cols T @ [c], rows := map (\<lambda>r. r @ [Null]) (rows T)\<rparr>"
  by (simp add: upgraded_def)

lemma migrated_subset_target: "set (migrated_columns t) \<subseteq> set (target_columns t)"
  by (auto simp: migrated_columns_def target_columns_def users_columns_def queries_columns_def
      presets_columns_def)

lemma filter_eq_single: "distinct xs \<Longrightarrow> c \<in> set xs \<Longrightarrow> filter (\<lambda>x. x = c) xs = [c]"
  by (induction xs) (auto simp: filter_empty_conv)

lemma distinct_migrated: "distinct (migrated_columns t)"
  by (simp add: migrated_columns_def)

lemma migrated_nonempty_known: "c \<in> set (migrated_columns t) \<Longrightarrow> t \<in> {''users'', ''queries'', ''presets''}"
  by (simp add: migrated_columns_def split: if_splits)

lemma table_after_ensure_eq: "schema_names_ok d \<Longrightarrow> table_after_ensure d t = ensured_db d t"
  by (simp add: table_after_ensure_def ensure_tables_and_columns_eq)

lemma schema_names_ok_single:
  "t \<in> {''users'', ''queries'', ''presets''} \<Longrightarrow> migratable t T \<Longrightarrow> schema_names_ok [t \<mapsto> T]"
  by (auto simp: schema_names_ok_def)

lemma migratable_users_without_fullname: "migratable ''users'' users_without_fullname"
  by (simp add: migratable_def users_without_fullname_def migrated_columns_def nocase_def nocase_char_def)

lemma migratable_users_without_username: "migratable ''users'' users_without_username"
  by (simp add: migratable_def users_without_username_def migrated_columns_def nocase_def nocase_char_def)

lemma migratable_queries_without_text: "migratable ''queries'' queries_without_text"
  by (simp add: migratable_def queries_without_text_def migrated_columns_def nocase_def nocase_char_def)

text \<open>
  C2, as the code has it, on the databases where Python and SQLite agree about the
  names.  Running the migration twice gives the database that running it once gives.  A
  table that exists and lacks exactly one of its columns gains that column, as its last
  one and \<open>NULL\<close> in every row, when the column is on the table's migration list
  (\<open>fullname\<close>, \<open>reg_date\<close> of \<open>users\<close>; \<open>source\<close>, \<open>params\<close>, \<open>ts\<close> of \<open>queries\<close>;
  \<open>content\<close>, \<open>created_at\<close> of \<open>presets\<close>); the rows are otherwise as they were.
\<close>

theorem ensure_idempotent_and_adds_missing_migrated_column:
  "schema_names_ok d \<Longrightarrow>
   (\<exists>d1. ensure_tables_and_columns d = Inr d1 \<and> ensure_tables_and_columns d1 = Inr d1) \<and>
   (d t = Some T \<and> c \<in> set (migrated_columns t) \<and> set (target_columns t) - set (cols T) = {c} \<longrightarrow>
      (\<exists>d1 T1. ensure_tables_and_columns d = Inr d1 \<and> d1 t = Some T1 \<and>
         cols T1 = cols T @ [c] \<and> rows T1 = map (\<lambda>r. r @ [Null]) (rows T)))"
proof (intro conjI impI)
  assume ok: "schema_names_ok d"
  have "ensure_tables_and_columns (ensured_db d) = Inr (ensured_db d)"
    using ensure_tables_and_columns_eq [OF schema_names_ok_ensured [OF ok]]
    by (simp add: ensured_db_idem)
  then show "\<exists>d1. ensure_tables_and_columns d = Inr d1 \<and> ensure_tables_and_columns d1 = Inr d1"
    by (simp add: ensure_tables_and_columns_eq [OF ok])
next
  assume ok: "schema_names_ok d"
  assume a: "d t = Some T \<and> c \<in> set (migrated_columns t) \<and> set (target_columns t) - set (cols T) = {c}"
  then have t: "t \<in> {''users'', ''queries'', ''presets''}"
    using migrated_nonempty_known by blast
  have "\<And>x. x \<in> set (migrated_columns t) \<Longrightarrow> x \<notin> set (cols T) \<longleftrightarrow> x = c"
    using a migrated_subset_target [of t] by auto
  then have "filter (\<lambda>x. x \<notin> set (cols T)) (migrated_columns t) = filter (\<lambda>x. x = c) (migrated_columns t)"
    by (intro filter_cong) auto
  also have "\<dots> = [c]"
    using a distinct_migrated [of t] by (intro filter_eq_single) auto
  finally have "upgraded (migrated_columns t) T
      = T\<lparr>cols := cols T @ [c], rows := map (\<lambda>r. r @ [Null]) (rows T)\<rparr>"
    by (rule upgraded_single)
  then show "\<exists>d1 T1. ensure_tables_and_columns d = Inr d1 \<and> d1 t = Some T1 \<and>
         cols T1 = cols T @ [c] \<and> rows T1 = map (\<lambda>r. r @ [Null]) (rows T)"
    using a t by (simp add: ensure_tables_and_columns_eq [OF ok] ensured_db_at ensured_table_def)
qed

theorem ensure_idempotent_and_adds_missing_migrated_column_witness:
  "schema_names_ok [''users'' \<mapsto> users_without_fullname] \<and>
   [''users'' \<mapsto> users_without_fullname] ''users'' = Some users_without_fullname \<and>
   ''fullname'' \<in> set (migrated_columns ''users'') \<and>
   set (target_columns ''users'') - set (cols users_without_fullname) = {''fullname''} \<and>
   map_option cols (table_after_ensure [''users'' \<mapsto> users_without_fullname] ''users'')
     = Some [''user_id'', ''username'', ''reg_date'', ''fullname''] \<and>
   map_option rows (table_after_ensure [''users'' \<mapsto> users_without_fullname] ''users'')
     = Some [[IntV 7, TextV (asc ''ann''), TextV (asc ''2025-09-10 08:00:00''), Null]]"
proof -
  let ?d = "[''users'' \<mapsto> users_without_fullname]"
  have ok: "schema_names_ok ?d"
    by (rule schema_names_ok_single) (simp_all add: migratable_users_without_fullname)
  have h: "?d ''users'' = Some users_without_fullname \<and>
      ''fullname'' \<in> set (migrated_columns ''users'') \<and>
      set (target_columns ''users'') - set (cols users_without_fullname) = {''fullname''}"
    by (auto simp: migrated_columns_def target_columns_def users_columns_def users_without_fullname_def)
  from ensure_idempotent_and_adds_missing_migrated_column
         [OF ok, of "''users''" users_without_fullname "''fullname''"] h
  obtain d1 T1 where "ensure_tables_and_columns ?d = Inr d1" "d1 ''users'' = Some T1"
      "cols T1 = cols users_without_fullname @ [''fullname'']"
      "rows T1 = map (\<lambda>r. r @ [Null]) (rows users_without_fullname)"
    by blast
  then have "map_option cols (table_after_ensure ?d ''users'') = Some [''user_id'', ''username'', ''reg_date'', ''fullname'']"
    and "map_option rows (table_after_ensure ?d ''users'')
       = Some [[IntV 7, TextV (asc ''ann''), TextV (asc ''2025-09-10 08:00:00''), Null]]"
    by (simp_all add: table_after_ensure_def users_without_fullname_def)
  with ok h show ?thesis by blast
qed

text \<open>
  C2 as the specification states it fails: a \<open>users\<close> table that lacks exactly
  \<open>username\<close> is left as it is.
\<close>

theorem ensure_does_not_add_username:
  "[''users'' \<mapsto> users_without_username] ''users'' = Some users_without_username \<and>
   set (target_columns ''users'') - set (cols users_without_username) = {''username''} \<and>
   table_after_ensure [''users'' \<mapsto> users_without_username] ''users'' = Some users_without_username"
proof -
  have ok: "schema_names_ok [''users'' \<mapsto> users_without_username]"
    by (rule schema_names_ok_single) (simp_all add: migratable_users_without_username)
  have e: "table_after_ensure [''users'' \<mapsto> users_without_username] ''users''
      = ensured_db [''users'' \<mapsto> users_without_username] ''users''"
    by (rule table_after_ensure_eq [OF ok])
  have "upgraded (migrated_columns ''users'') users_without_username = users_without_username"
    by (simp add: upgraded_def migrated_columns_def users_without_username_def)
  then have "ensured_db [''users'' \<mapsto> users_without_username] ''users'' = Some users_without_username"
    by (simp add: ensured_db_at ensured_table_def)
  moreover have "set (target_columns ''users'') - set (cols users_without_username) = {''username''}"
    by (auto simp: target_columns_def users_columns_def users_without_username_def)
  ultimately show ?thesis
    unfolding e by simp
qed

text \<open>
  C3, as the code has it, on the databases where Python and SQLite agree about the
  names.  After the migration a table that existed before has its old columns followed
  by the columns of its migration list that it lacked, in the order of that list; so
  every column of the migration list is present.  (The other columns of the table,
  \<open>user_id\<close> and \<open>username\<close> of \<open>users\<close>, \<open>id\<close>, \<open>user_id\<close> and \<open>text\<close> of \<open>queries\<close>,
  \<open>id\<close>, \<open>user_id\<close> and \<open>name\<close> of \<open>presets\<close>, are not looked for.)
\<close>

theorem ensure_appends_missing_migrated_columns:
  "schema_names_ok d \<Longrightarrow> d t = Some T \<Longrightarrow>
   \<exists>d1 T1. ensure_tables_and_columns d = Inr d1 \<and> d1 t = Some T1 \<and>
     cols T1 = cols T @ filter (\<lambda>c. c \<notin> set (cols T)) (migrated_columns t) \<and>
     set (migrated_columns t) \<subseteq> set (cols T1)"
proof -
  assume ok: "schema_names_ok d" and a: "d t = Some T"
  have "cols (upgraded (migrated_columns t) T) = cols T @ filter (\<lambda>c. c \<notin> set (cols T)) (migrated_columns t)"
    by (simp add: upgraded_def)
  moreover have "migrated_columns t = [] \<or> t \<in> {''users'', ''queries'', ''presets''}"
    by (simp add: migrated_columns_def)
  ultimately show ?thesis
    using a by (auto simp: ensure_tables_and_columns_eq [OF ok] ensured_db_at ensured_table_def)
qed

theorem ensure_appends_missing_migrated_columns_witness:
  "schema_names_ok [''queries'' \<mapsto> queries_without_text] \<and>
   [''queries'' \<mapsto> queries_without_text] ''queries'' = Some queries_without_text \<and>
   map_option cols (table_after_ensure [''queries'' \<mapsto> queries_without_text] ''queries'')
     = Some [''id'', ''user_id'', ''source'', ''params'', ''ts'']"
proof -
  let ?d = "[''queries'' \<mapsto> queries_without_text]"
  have ok: "schema_names_ok ?d"
    by (rule schema_names_ok_single) (simp_all add: migratable_queries_without_text)
  have h: "?d ''queries'' = Some queries_without_text" by simp
  from ensure_appends_missing_migrated_columns [OF ok, of "''queries''" queries_without_text] h
  obtain d1 T1 where "ensure_tables_and_columns ?d = Inr d1" "d1 ''queries'' = Some T1"
      "cols T1 = cols queries_without_text
         @ filter (\<lambda>c. c \<notin> set (cols queries_without_text)) (migrated_columns ''queries'')"
    by blast
  then have "map_option cols (table_after_ensure ?d ''queries'')
       = Some [''id'', ''user_id'', ''source'', ''params'', ''ts'']"
    by (simp add: table_after_ensure_def queries_without_text_def migrated_columns_def)
  with ok h show ?thesis by blast
qed

text \<open>
  C3 as the specification states it fails: \<open>text\<close> is a column of \<open>queries\<close>, the table
  of the older version lacks it, and it is still absent after the migration.
\<close>

theorem ensure_does_not_add_text:
  "''text'' \<in> set (target_columns ''queries'') \<and>
   ''text'' \<notin> set (cols queries_without_text) \<and>
   map_option cols (table_after_ensure [''queries'' \<mapsto> queries_without_text] ''queries'')
     = Some [''id'', ''user_id'', ''source'', ''params'', ''ts''] \<and>
   \<not> column_exists [''queries'' \<mapsto> ensured_table ''queries'' (Some queries_without_text)] ''queries'' ''text''"
proof -
  have ok: "schema_names_ok [''queries'' \<mapsto> queries_without_text]"
    by (rule schema_names_ok_single) (simp_all add: migratable_queries_without_text)
  have e: "table_after_ensure [''queries'' \<mapsto> queries_without_text] ''queries''
      = ensured_db [''queries'' \<mapsto> queries_without_text] ''queries''"
    by (rule table_after_ensure_eq [OF ok])
  show ?thesis
    unfolding e
    by (simp add: ensured_db_at ensured_table_def upgraded_def target_columns_def
      queries_columns_def queries_without_text_def migrated_columns_def column_exists_def)
qed

text \<open>
  Outside these databases the migration raises: the column \<open>FullName\<close> is not
  \<open>fullname\<close> for Python and is for SQLite, and so is a table named \<open>Users\<close>.
\<close>

lemma nocase_FullName: "nocase ''FullName'' = ''fullname''"
  by (simp add: nocase_def nocase_char_def)

lemma ensure_raises_on_case_variant:
  "ensure_tables_and_columns [''users'' \<mapsto> users_with_FullName] = Inl OperationalError"
  by (simp add: ensure_tables_and_columns_def ensure_users_def table_exists_def users_with_FullName_def
      add_if_missing_def column_exists_def add_column_def ebind_def nocase_FullName)
    (simp add: nocase_def nocase_char_def)

lemma ensure_raises_on_table_case_variant:
  "ensure_tables_and_columns [''users'' \<mapsto> (fresh_table ''users'')\<lparr>tname := ''Users''\<rparr>]
     = Inl OperationalError"
  by (simp add: ensure_tables_and_columns_def ensure_users_def table_exists_def create_table_def
      fresh_table_def ebind_def)

section \<open>Users, queries and presets\<close>

lemma index_of_mem: "c \<in> set cs \<Longrightarrow> \<exists>i. index_of c cs = Some i \<and> i < length cs \<and> cs ! i = c"
  by (induction cs) auto

lemma cell_stored: "c \<in> set (cols T) \<Longrightarrow> cols T' = cols T \<Longrightarrow> cell T' (map f (cols T)) c = f c"
  using index_of_mem [of c "cols T"] by (auto simp: cell_def)

lemma cell_same_cols: "cols T' = cols T \<Longrightarrow> cell T' r c = cell T r c"
  by (simp add: cell_def)

lemma fold_max_ge: "(m::int) \<le> fold max xs m"
  by (induction xs arbitrary: m) (auto intro: order_trans [OF max.cobounded2])

lemma fold_max_mem: "x \<in> set xs \<Longrightarrow> (x::int) \<le> fold max xs m"
proof (induction xs arbitrary: m)
  case Nil
  then show ?case by simp
next
  case (Cons y ys)
  show ?case
  proof (cases "x = y")
    case True
    have "x \<le> max y m" using True by simp
    also have "\<dots> \<le> fold max ys (max y m)" by (rule fold_max_ge)
    finally show ?thesis by simp
  next
    case False
    with Cons show ?thesis by simp
  qed
qed

lemma rowid_less_next: "i \<in> set (rowids T) \<Longrightarrow> i < next_rowid T"
proof -
  assume a: "i \<in> set (rowids T)"
  then obtain y ys where ids: "rowids T = y # ys" by (cases "rowids T") auto
  have "i \<le> fold max ys y"
  proof (cases "i = y")
    case True
    then show ?thesis by (simp add: fold_max_ge)
  next
    case False
    with a ids show ?thesis by (simp add: fold_max_mem)
  qed
  then show ?thesis
    by (auto simp: next_rowid_def last_rowid_def ids Let_def max_def)
qed

lemma rowids_mem:
  "pkey T = Some k \<Longrightarrow> i \<in> set (rowids T) \<longleftrightarrow> (\<exists>r \<in> set (rows T). cell T r k = IntV i)"
proof -
  assume pk: "pkey T = Some k"
  have "\<And>r. (i \<in> set (case cell T r k of IntV j \<Rightarrow> [j] | _ \<Rightarrow> [])) = (cell T r k = IntV i)"
    by (auto split: sqlval.splits)
  then show ?thesis by (simp add: rowids_def pk)
qed

lemma new_rowid_room: "room_for (Suc n) T \<Longrightarrow> new_rowid T = Inr (next_rowid T, T)"
  by (auto simp: room_for_def new_rowid_def next_rowid_def)

lemma insert_row_auto:
  "list_all (\<lambda>c. c \<in> set (cols T)) (map fst vals) \<Longrightarrow> pkey T = Some k \<Longrightarrow> map_of vals k = None \<Longrightarrow>
   room_for (Suc n) T \<Longrightarrow> insert_row T vals = Inr (store T vals (next_rowid T))"
  by (simp add: insert_row_def new_rowid_room ebind_def)

lemma insert_row_given:
  "list_all (\<lambda>c. c \<in> set (cols T)) (map fst vals) \<Longrightarrow> pkey T = Some k \<Longrightarrow> map_of vals k = Some (IntV i) \<Longrightarrow>
   i \<notin> set (rowids T) \<Longrightarrow> insert_row T vals = Inr (store T vals i)"
  by (simp add: insert_row_def)


lemma store_rows:
  "fst (store T vals rid) = T'
   \<Longrightarrow> cols T' = cols T \<and> pkey T' = pkey T \<and> autoinc T' = autoinc T \<and>
       rows T' = rows T @ [map (\<lambda>c. if pkey T = Some c then IntV rid
                    else (case map_of vals c of Some v \<Rightarrow> v | None \<Rightarrow> Null)) (cols T)]"
  by (auto simp: store_def)

text \<open>After a row has been stored under the next key, the next key is one larger.\<close>

lemma fold_max_Max: "fold max xs (x::int) = Max (set (x # xs))"
  by (rule Max.set_eq_fold [symmetric])

lemma last_rowid_Max: "rowids T \<noteq> [] \<Longrightarrow> last_rowid T = Max (set (rowids T))"
proof -
  assume "rowids T \<noteq> []"
  then obtain y ys where ids: "rowids T = y # ys" by (cases "rowids T") auto
  have "last_rowid T = fold max ys y" by (simp add: last_rowid_def ids)
  also have "\<dots> = Max (set (y # ys))" by (rule fold_max_Max)
  finally show ?thesis by (simp only: ids)
qed

lemma rowids_store:
  assumes pk: "pkey T = Some k" and k: "k \<in> set (cols T)"
  shows "rowids (fst (store T vals rid)) = rowids T @ [rid]"
proof -
  let ?T1 = "fst (store T vals rid)"
  let ?r = "map (\<lambda>c. if pkey T = Some c then IntV rid
                    else (case map_of vals c of Some v \<Rightarrow> v | None \<Rightarrow> Null)) (cols T)"
  have s: "cols ?T1 = cols T" "pkey ?T1 = pkey T" "rows ?T1 = rows T @ [?r]"
    by (simp_all add: store_def)
  have c: "\<And>r. cell ?T1 r k = cell T r k"
    using s(1) by (simp add: cell_def)
  have "cell T ?r k = IntV rid"
    using k pk by (simp add: cell_stored)
  then show ?thesis
    by (simp add: rowids_def s pk c)
qed

lemma next_rowid_store:
  assumes pk: "pkey T = Some k" and k: "k \<in> set (cols T)"
  shows "next_rowid (fst (store T vals (next_rowid T))) = next_rowid T + 1"
proof -
  let ?rid = "next_rowid T"
  let ?T1 = "fst (store T vals ?rid)"
  have ids: "rowids ?T1 = rowids T @ [?rid]"
    by (rule rowids_store [OF pk k])
  have "Max (set (rowids T @ [?rid])) = ?rid"
  proof (rule Max_eqI)
    show "finite (set (rowids T @ [?rid]))" by simp
    show "?rid \<in> set (rowids T @ [?rid])" by simp
    fix y assume "y \<in> set (rowids T @ [?rid])"
    then show "y \<le> ?rid" using rowid_less_next [of y T] by auto
  qed
  then have last: "last_rowid ?T1 = ?rid"
    using ids by (simp add: last_rowid_Max)
  have a: "autoinc ?T1 = autoinc T" and sq: "seq ?T1 = (if autoinc T then max (seq T) ?rid else seq T)"
    by (simp_all add: store_def)
  have "seq T < ?rid" if "autoinc T"
    using that by (simp add: next_rowid_def)
  then show ?thesis
    unfolding next_rowid_def [of ?T1] last a sq by (auto simp: max_def)
qed

lemma room_for_store:
  "pkey T = Some k \<Longrightarrow> k \<in> set (cols T) \<Longrightarrow> room_for (Suc n) T \<Longrightarrow>
   room_for n (fst (store T vals (next_rowid T)))"
  by (simp add: room_for_def next_rowid_store)

subsection \<open>register_user\<close>

lemma count_le_one:
  assumes "pkey T = Some k" "distinct (rowids T)"
  shows "length (filter (\<lambda>r. sql_eq (cell T r k) (IntV i)) (rows T)) \<le> 1"
proof -
  have "\<And>rs. distinct (concat (map (\<lambda>r. case cell T r k of IntV i \<Rightarrow> [i] | _ \<Rightarrow> []) rs))
      \<Longrightarrow> length (filter (\<lambda>r. sql_eq (cell T r k) (IntV i)) rs) \<le> 1"
  proof -
    fix rs
    show "distinct (concat (map (\<lambda>r. case cell T r k of IntV i \<Rightarrow> [i] | _ \<Rightarrow> []) rs))
      \<Longrightarrow> length (filter (\<lambda>r. sql_eq (cell T r k) (IntV i)) rs) \<le> 1"
    proof (induction rs)
      case Nil
      then show ?case by simp
    next
      case (Cons r rs)
      show ?case
      proof (cases "cell T r k = IntV i")
        case True
        with Cons.prems have "\<forall>r' \<in> set rs. cell T r' k \<noteq> IntV i"
          by (fastforce split: sqlval.splits)
        then have "filter (\<lambda>r. sql_eq (cell T r k) (IntV i)) rs = []"
          by (auto simp: filter_empty_conv sql_eq_def)
        then show ?thesis by simp
      next
        case False
        with Cons show ?thesis by (auto simp: sql_eq_def split: sqlval.splits)
      qed
    qed
  qed
  with assms show ?thesis by (simp add: rowids_def)
qed

lemma register_user_new:
  assumes ok: "users_ok d" and T: "d ''users'' = Some T"
    and none: "filter (\<lambda>r. sql_eq (cell T r ''user_id'') (IntV (uid u))) (rows T) = []"
  shows "\<exists>T1 r. register_user d u now = Inr (d(''users'' \<mapsto> T1)) \<and> cols T1 = cols T \<and>
     pkey T1 = pkey T \<and> rows T1 = rows T @ [r] \<and> cell T r ''user_id'' = IntV (uid u) \<and>
     users_ok (d(''users'' \<mapsto> T1))"
proof -
  let ?vals = "[(''user_id'', IntV (uid u)),
                   (''username'', opt_text (username u)),
                   (''fullname'', TextV (py_join (asc '' '') (filter_none [first_name u, last_name u]))),
                   (''reg_date'', TextV now)]"
  let ?r = "map (\<lambda>c. if pkey T = Some c then IntV (uid u)
                    else (case map_of ?vals c of Some v \<Rightarrow> v | None \<Rightarrow> Null)) (cols T)"
  from ok T have c: "list_all (\<lambda>c. c \<in> set (cols T)) users_columns" and pk: "pkey T = Some ''user_id''"
    and dist: "distinct (rowids T)"
    by (simp_all add: users_ok_def)
  have fresh: "uid u \<notin> set (rowids T)"
  proof
    assume "uid u \<in> set (rowids T)"
    then obtain r where "r \<in> set (rows T)" "cell T r ''user_id'' = IntV (uid u)"
      using rowids_mem [OF pk] by blast
    with none show False by (auto simp: filter_empty_conv sql_eq_def)
  qed
  have ins: "insert_row T ?vals = Inr (store T ?vals (uid u))"
    using c pk fresh by (intro insert_row_given [where k = "''user_id''"]) (simp_all add: users_columns_def)
  obtain T1 where T1: "fst (store T ?vals (uid u)) = T1" by simp
  then have st: "store T ?vals (uid u) = (T1, uid u)" by (auto simp: store_def)
  from store_rows [OF T1] have s: "cols T1 = cols T" "pkey T1 = pkey T" "rows T1 = rows T @ [?r]"
    by simp_all
  have cr: "cell T ?r ''user_id'' = IntV (uid u)"
    using c pk by (subst cell_stored) (simp_all add: users_columns_def)
  have op: "open_table d ''users'' [''user_id''] = Inr T"
    using T c by (simp add: open_table_def users_columns_def)
  have reg: "register_user d u now = Inr (d(''users'' \<mapsto> T1))"
    using none by (simp add: register_user_def op ebind_def sql_insert_def T ins st)
  have ids: "rowids T1 = rowids T @ [uid u]"
    using s pk cr by (simp add: rowids_def cell_same_cols [of T1 T])
  have "users_ok (d(''users'' \<mapsto> T1))"
    using c pk dist fresh s ids by (simp add: users_ok_def)
  with reg s cr show ?thesis by blast
qed

lemma register_user_known:
  assumes ok: "users_ok d" and T: "d ''users'' = Some T"
    and some: "filter (\<lambda>r. sql_eq (cell T r ''user_id'') (IntV (uid u))) (rows T) \<noteq> []"
  shows "register_user d u now = Inr d"
proof -
  from ok T have c: "list_all (\<lambda>c. c \<in> set (cols T)) users_columns"
    by (simp_all add: users_ok_def)
  have op: "open_table d ''users'' [''user_id''] = Inr T"
    using T c by (simp add: open_table_def users_columns_def)
  show ?thesis using some by (simp add: register_user_def op ebind_def)
qed

text \<open>
  C6.  On a well-formed \<open>users\<close> table the first \<open>register_user\<close> succeeds, a second
  call for a user with the same identifier (whatever its names and whatever the clock
  says) returns the database of the first call unchanged, and that database has exactly
  one row for the identifier.
\<close>

theorem register_user_twice:
  "users_ok d \<Longrightarrow> uid u2 = uid u1 \<Longrightarrow>
   \<exists>d1. register_user d u1 t1 = Inr d1 \<and> register_user d1 u2 t2 = Inr d1 \<and>
        count_user_rows d1 (uid u1) = 1"
proof -
  assume ok: "users_ok d" and same: "uid u2 = uid u1"
  then obtain T where T: "d ''users'' = Some T"
    by (auto simp: users_ok_def split: option.splits)
  from ok T have pk: "pkey T = Some ''user_id''" and dist: "distinct (rowids T)"
    by (simp_all add: users_ok_def)
  let ?m = "\<lambda>T r. sql_eq (cell T r ''user_id'') (IntV (uid u1))"
  show ?thesis
  proof (cases "filter (?m T) (rows T) = []")
    case True
    from register_user_new [OF ok T True, of t1]
    obtain T1 r where r: "register_user d u1 t1 = Inr (d(''users'' \<mapsto> T1))" "cols T1 = cols T"
        "rows T1 = rows T @ [r]" "cell T r ''user_id'' = IntV (uid u1)" "users_ok (d(''users'' \<mapsto> T1))"
      by blast
    have ceq: "\<And>r c. cell T1 r c = cell T r c" using r(2) by (simp add: cell_def)
    have "?m T r" using r(4) by (simp add: sql_eq_def)
    then have f: "filter (?m T1) (rows T1) = [r]"
      using True r(3) by (simp add: ceq)
    then have "filter (\<lambda>r. sql_eq (cell T1 r ''user_id'') (IntV (uid u2))) (rows T1) \<noteq> []"
      using same by simp
    from register_user_known [OF r(5) _ this, of t2]
    have "register_user (d(''users'' \<mapsto> T1)) u2 t2 = Inr (d(''users'' \<mapsto> T1))" by simp
    with r(1) f show ?thesis by (simp add: count_user_rows_def)
  next
    case False
    then have ne: "filter (\<lambda>r. sql_eq (cell T r ''user_id'') (IntV (uid u2))) (rows T) \<noteq> []"
      using same by simp
    have 1: "register_user d u1 t1 = Inr d" by (rule register_user_known [OF ok T False])
    have 2: "register_user d u2 t2 = Inr d" by (rule register_user_known [OF ok T ne])
    have "length (filter (?m T) (rows T)) \<le> 1" by (rule count_le_one [OF pk dist])
    moreover have "length (filter (?m T) (rows T)) \<noteq> 0" using False by simp
    ultimately have "length (filter (?m T) (rows T)) = 1" by linarith
    with 1 2 T show ?thesis by (simp add: count_user_rows_def)
  qed
qed

theorem register_user_twice_witness:
  "users_ok fresh_db \<and> uid ann_renamed = uid ann \<and>
   (\<exists>d1. register_user fresh_db ann (asc ''2025-09-10 08:00:00'') = Inr d1 \<and>
         register_user d1 ann_renamed (asc ''2025-09-11 09:30:00'') = Inr d1 \<and>
         count_user_rows d1 (uid ann) = 1)"
proof -
  have h1: "users_ok fresh_db"
    by (simp add: users_ok_def fresh_db_def fresh_table_def target_columns_def users_columns_def
        rowids_def)
  have h2: "uid ann_renamed = uid ann"
    by (simp add: ann_def ann_renamed_def)
  from register_user_twice [OF h1 h2, of "asc ''2025-09-10 08:00:00''" "asc ''2025-09-11 09:30:00''"]
  show ?thesis using h1 h2 by simp
qed



subsection \<open>presets\<close>

lemma add_preset_appends:
  assumes ok: "presets_ok d" and T: "d ''presets'' = Some T" and room: "room_for (Suc m) T"
  shows "\<exists>T1 r. add_preset_db d u n c now = Inr (d(''presets'' \<mapsto> T1)) \<and> cols T1 = cols T \<and>
     rows T1 = rows T @ [r] \<and> preset_matches T u n r \<and> presets_ok (d(''presets'' \<mapsto> T1)) \<and>
     room_for m T1"
proof -
  let ?vals = "[(''user_id'', IntV u), (''name'', TextV n), (''content'', TextV c), (''created_at'', TextV now)]"
  let ?rid = "next_rowid T"
  let ?r = "map (\<lambda>c. if pkey T = Some c then IntV ?rid
                    else (case map_of ?vals c of Some v \<Rightarrow> v | None \<Rightarrow> Null)) (cols T)"
  from ok T have cs: "list_all (\<lambda>c. c \<in> set (cols T)) presets_columns" and pk: "pkey T = Some ''id''"
    by (simp_all add: presets_ok_def)
  have ins: "insert_row T ?vals = Inr (store T ?vals ?rid)"
    using cs pk room by (intro insert_row_auto [where k = "''id''" and n = m]) (simp_all add: presets_columns_def)
  obtain T1 where T1: "fst (store T ?vals ?rid) = T1" by simp
  then have st: "store T ?vals ?rid = (T1, ?rid)" by (auto simp: store_def)
  from store_rows [OF T1] have s: "cols T1 = cols T" "pkey T1 = pkey T" "rows T1 = rows T @ [?r]"
    by simp_all
  have "cell T ?r ''user_id'' = IntV u" "cell T ?r ''name'' = TextV n"
    using cs pk by (simp_all add: cell_stored presets_columns_def)
  then have m: "preset_matches T u n ?r"
    by (simp add: preset_matches_def sql_eq_def)
  have add: "add_preset_db d u n c now = Inr (d(''presets'' \<mapsto> T1))"
    by (simp add: add_preset_db_def sql_insert_def T ins st ebind_def)
  have "presets_ok (d(''presets'' \<mapsto> T1))"
    using cs pk s by (simp add: presets_ok_def)
  moreover have "room_for m T1"
    using room_for_store [OF pk _ room, of ?vals] cs T1 by (simp add: presets_columns_def)
  ultimately show ?thesis using add s m by blast
qed

lemma delete_preset_db_eq:
  assumes ok: "presets_ok d" and T: "d ''presets'' = Some T"
  shows "delete_preset_db d u n
       = Inr (d(''presets'' \<mapsto> T\<lparr>rows := filter (\<lambda>r. \<not> preset_matches T u n r) (rows T)\<rparr>))"
proof -
  from ok T have cs: "list_all (\<lambda>c. c \<in> set (cols T)) presets_columns"
    by (simp_all add: presets_ok_def)
  then have "open_table d ''presets'' [''user_id'', ''name''] = Inr T"
    using T by (simp add: open_table_def presets_columns_def)
  then show ?thesis by (simp add: delete_preset_db_def ebind_def)
qed

text \<open>
  C7.  On a well-formed \<open>presets\<close> table \<open>delete_preset_db\<close> keeps exactly the rows that
  do not match the user and the name, in their order and as they were, and changes no
  other table.  After two \<open>add_preset_db\<close> calls with the same user and name (two more
  rows, for which the table must have two keys left), the deletion leaves the rows that
  did not match before the two calls: both new rows are gone.
\<close>

theorem delete_preset_removes_every_match:
  "presets_ok d \<Longrightarrow>
   \<exists>T. d ''presets'' = Some T \<and>
     delete_preset_db d u n
       = Inr (d(''presets'' \<mapsto> T\<lparr>rows := filter (\<lambda>r. \<not> preset_matches T u n r) (rows T)\<rparr>)) \<and>
     (room_for 2 T \<longrightarrow>
       (\<exists>d1 d2 d3.
          add_preset_db d u n c1 t1 = Inr d1 \<and> add_preset_db d1 u n c2 t2 = Inr d2 \<and>
          length (preset_rows d2) = length (preset_rows d) + 2 \<and>
          delete_preset_db d2 u n = Inr d3 \<and>
          preset_rows d3 = filter (\<lambda>r. \<not> preset_matches T u n r) (rows T)))"
proof -
  assume ok: "presets_ok d"
  then obtain T where T: "d ''presets'' = Some T"
    by (auto simp: presets_ok_def split: option.splits)
  have c1: "delete_preset_db d u n
       = Inr (d(''presets'' \<mapsto> T\<lparr>rows := filter (\<lambda>r. \<not> preset_matches T u n r) (rows T)\<rparr>))"
    by (rule delete_preset_db_eq [OF ok T])
  have "\<exists>d1 d2 d3.
          add_preset_db d u n c1 t1 = Inr d1 \<and> add_preset_db d1 u n c2 t2 = Inr d2 \<and>
          length (preset_rows d2) = length (preset_rows d) + 2 \<and>
          delete_preset_db d2 u n = Inr d3 \<and>
          preset_rows d3 = filter (\<lambda>r. \<not> preset_matches T u n r) (rows T)"
    if room: "room_for 2 T"
  proof -
  from room have room2: "room_for (Suc (Suc 0)) T" by (simp add: numeral_2_eq_2)
  from add_preset_appends [OF ok T room2, of u n c1 t1]
  obtain T1 r1 where a1: "add_preset_db d u n c1 t1 = Inr (d(''presets'' \<mapsto> T1))" "cols T1 = cols T"
     "rows T1 = rows T @ [r1]" "preset_matches T u n r1" "presets_ok (d(''presets'' \<mapsto> T1))"
     "room_for (Suc 0) T1"
    by blast
  let ?d1 = "d(''presets'' \<mapsto> T1)"
  have T1: "?d1 ''presets'' = Some T1" by simp
  from add_preset_appends [OF a1(5) T1 a1(6), of u n c2 t2]
  obtain T2 r2 where a2: "add_preset_db ?d1 u n c2 t2 = Inr (?d1(''presets'' \<mapsto> T2))" "cols T2 = cols T1"
     "rows T2 = rows T1 @ [r2]" "preset_matches T1 u n r2" "presets_ok (?d1(''presets'' \<mapsto> T2))"
    by blast
  let ?d2 = "?d1(''presets'' \<mapsto> T2)"
  have T2: "?d2 ''presets'' = Some T2" by simp
  have m: "\<And>r. preset_matches T2 u n r = preset_matches T u n r"
    using a1(2) a2(2) by (simp add: preset_matches_def cell_def)
  have m2: "preset_matches T u n r2"
    using a2(4) a1(2) by (simp add: preset_matches_def cell_def)
  let ?d3 = "?d2(''presets'' \<mapsto> T2\<lparr>rows := filter (\<lambda>r. \<not> preset_matches T2 u n r) (rows T2)\<rparr>)"
  have del: "delete_preset_db ?d2 u n = Inr ?d3"
    by (rule delete_preset_db_eq [OF a2(5) T2])
  have c2: "preset_rows ?d3 = filter (\<lambda>r. \<not> preset_matches T u n r) (rows T)"
    using a1(3,4) a2(3) m2 by (simp add: preset_rows_def m)
  have c3: "length (preset_rows ?d2) = length (preset_rows d) + 2"
    using a1(3) a2(3) T by (simp add: preset_rows_def)
  have "add_preset_db d u n c1 t1 = Inr ?d1 \<and> add_preset_db ?d1 u n c2 t2 = Inr ?d2 \<and>
     length (preset_rows ?d2) = length (preset_rows d) + 2 \<and>
     delete_preset_db ?d2 u n = Inr ?d3 \<and>
     preset_rows ?d3 = filter (\<lambda>r. \<not> preset_matches T u n r) (rows T)"
    using a1(1) a2(1) c3 del c2 by (intro conjI)
  then show ?thesis
    by (intro exI)
  qed
  with T c1 show ?thesis by blast
qed

theorem delete_preset_removes_every_match_witness:
  "presets_ok fresh_db \<and> presets_room fresh_db 2 \<and>
   (\<exists>T d1 d2 d3.
     fresh_db ''presets'' = Some T \<and>
     delete_preset_db fresh_db 7 (asc ''x'')
       = Inr (fresh_db(''presets'' \<mapsto> T\<lparr>rows := filter (\<lambda>r. \<not> preset_matches T 7 (asc ''x'') r) (rows T)\<rparr>)) \<and>
     add_preset_db fresh_db 7 (asc ''x'') (asc ''one'') (asc ''2025-09-10 08:00:00'') = Inr d1 \<and>
     add_preset_db d1 7 (asc ''x'') (asc ''two'') (asc ''2025-09-10 08:00:05'') = Inr d2 \<and>
     length (preset_rows d2) = length (preset_rows fresh_db) + 2 \<and>
     delete_preset_db d2 7 (asc ''x'') = Inr d3 \<and>
     preset_rows d3 = filter (\<lambda>r. \<not> preset_matches T 7 (asc ''x'') r) (rows T))"
proof -
  have h: "presets_ok fresh_db"
    by (simp add: presets_ok_def fresh_db_def fresh_table_def target_columns_def presets_columns_def)
  have r: "presets_room fresh_db 2"
    by (simp add: presets_room_def room_for_def next_rowid_def last_rowid_def rowids_def MAX_ROWID_def
        fresh_db_def fresh_table_def)
  from delete_preset_removes_every_match [OF h, of 7 "asc ''x''" "asc ''one''"
      "asc ''2025-09-10 08:00:00''" "asc ''two''" "asc ''2025-09-10 08:00:05''"]
  show ?thesis using h r by (auto simp: presets_room_def)
qed


subsection \<open>queries\<close>

lemma foldr_insert_desc_front:
  "\<forall>y \<in> set xs. \<not> sql_le (k x) (k y) \<Longrightarrow>
   foldr (insert_desc k) xs (x # zs) = x # foldr (insert_desc k) xs zs"
  by (induction xs) auto

lemma order_by_desc_snoc:
  "\<forall>y \<in> set xs. \<not> sql_le (k x) (k y) \<Longrightarrow> order_by_desc k (xs @ [x]) = x # order_by_desc k xs"
  by (simp add: order_by_desc_def foldr_insert_desc_front)

lemma log_query_step:
  assumes ok: "queries_ok d" and T: "d ''queries'' = Some T" and room: "room_for (Suc m) T"
  shows "\<exists>T1 r rid. log_query d u tx src params now = Inr (d(''queries'' \<mapsto> T1), rid) \<and>
     cols T1 = cols T \<and> rows T1 = rows T @ [r] \<and> cell T r ''id'' = IntV rid \<and>
     (\<forall>r' \<in> set (rows T). \<not> sql_le (cell T r ''id'') (cell T r' ''id'')) \<and>
     cell T r ''user_id'' = IntV u \<and> cell T r ''text'' = TextV tx \<and> cell T r ''ts'' = TextV now \<and>
     queries_ok (d(''queries'' \<mapsto> T1)) \<and> room_for m T1"
proof -
  let ?vals = "[(''user_id'', IntV u), (''text'', TextV tx), (''source'', TextV src),
        (''params'', TextV (case params of None \<Rightarrow> asc ''{}'' | Some p \<Rightarrow> p)), (''ts'', TextV now)]"
  let ?rid = "next_rowid T"
  let ?r = "map (\<lambda>c. if pkey T = Some c then IntV ?rid
                    else (case map_of ?vals c of Some v \<Rightarrow> v | None \<Rightarrow> Null)) (cols T)"
  from ok T have cs: "list_all (\<lambda>c. c \<in> set (cols T)) queries_columns" and pk: "pkey T = Some ''id''"
    and ints: "list_all (\<lambda>r. case cell T r ''id'' of IntV i \<Rightarrow> True | _ \<Rightarrow> False) (rows T)"
    by (simp_all add: queries_ok_def)
  have ins: "insert_row T ?vals = Inr (store T ?vals ?rid)"
    using cs pk room by (intro insert_row_auto [where k = "''id''" and n = m]) (simp_all add: queries_columns_def)
  obtain T1 where T1: "fst (store T ?vals ?rid) = T1" by simp
  then have st: "store T ?vals ?rid = (T1, ?rid)" by (auto simp: store_def)
  from store_rows [OF T1] have s: "cols T1 = cols T" "pkey T1 = pkey T" "rows T1 = rows T @ [?r]"
    by simp_all
  have c: "cell T ?r ''id'' = IntV ?rid" "cell T ?r ''user_id'' = IntV u"
      "cell T ?r ''text'' = TextV tx" "cell T ?r ''ts'' = TextV now"
    using cs pk by (simp_all add: cell_stored queries_columns_def)
  have less: "\<forall>r' \<in> set (rows T). \<not> sql_le (cell T ?r ''id'') (cell T r' ''id'')"
  proof
    fix r' assume r': "r' \<in> set (rows T)"
    with ints have "case cell T r' ''id'' of IntV i \<Rightarrow> True | _ \<Rightarrow> False"
      by (simp add: list_all_iff)
    then obtain j where j: "cell T r' ''id'' = IntV j"
      by (cases "cell T r' ''id''") auto
    with r' have "j \<in> set (rowids T)" using rowids_mem [OF pk] by blast
    then have "j < ?rid" by (rule rowid_less_next)
    then show "\<not> sql_le (cell T ?r ''id'') (cell T r' ''id'')"
      by (simp add: c j)
  qed
  have lq: "log_query d u tx src params now = Inr (d(''queries'' \<mapsto> T1), ?rid)"
    by (simp add: log_query_def sql_insert_def T ins st ebind_def)
  have "queries_ok (d(''queries'' \<mapsto> T1))"
    using cs pk ints s c(1) by (simp add: queries_ok_def cell_same_cols [of T1 T])
  moreover have "room_for m T1"
    using room_for_store [OF pk _ room, of ?vals] cs T1 by (simp add: queries_columns_def)
  ultimately show ?thesis using lq s c less by blast
qed

lemma list_history_eq:
  assumes ok: "queries_ok d" and T: "d ''queries'' = Some T"
  shows "list_history d u limit =
     Inr (map (\<lambda>r. (cell T r ''text'', cell T r ''ts''))
             (sql_limit limit
               (order_by_desc (\<lambda>r. cell T r ''id'')
                 (filter (\<lambda>r. sql_eq (cell T r ''user_id'') (IntV u)) (rows T)))))"
proof -
  from ok T have "list_all (\<lambda>c. c \<in> set (cols T)) queries_columns"
    by (simp add: queries_ok_def)
  then have "open_table d ''queries'' [''text'', ''ts'', ''user_id'', ''id''] = Inr T"
    using T by (simp add: open_table_def queries_columns_def)
  then show ?thesis by (simp add: list_history_def ebind_def)
qed

lemma log_query_history:
  assumes ok: "queries_ok d" and k: "0 \<le> k" and room: "queries_room d (Suc m)"
  shows "\<exists>d1 rid h. log_query d u tx src params now = Inr (d1, rid) \<and> queries_ok d1 \<and>
     queries_room d1 m \<and>
     (\<exists>r. query_rows d1 = query_rows d @ [r]) \<and>
     list_history d u k = Inr h \<and>
     list_history d1 u (k + 1) = Inr ((TextV tx, TextV now) # h)"
proof -
  from ok obtain T where T: "d ''queries'' = Some T"
    by (auto simp: queries_ok_def split: option.splits)
  from room T have roomT: "room_for (Suc m) T" by (simp add: queries_room_def)
  from log_query_step [OF ok T roomT, of u tx src params now]
  obtain T1 r rid where st: "log_query d u tx src params now = Inr (d(''queries'' \<mapsto> T1), rid)"
     "cols T1 = cols T" "rows T1 = rows T @ [r]" "cell T r ''id'' = IntV rid"
     "\<forall>r' \<in> set (rows T). \<not> sql_le (cell T r ''id'') (cell T r' ''id'')"
     "cell T r ''user_id'' = IntV u" "cell T r ''text'' = TextV tx" "cell T r ''ts'' = TextV now"
     "queries_ok (d(''queries'' \<mapsto> T1))" "room_for m T1"
    by blast
  let ?d1 = "d(''queries'' \<mapsto> T1)"
  let ?m = "\<lambda>r. sql_eq (cell T r ''user_id'') (IntV u)"
  let ?key = "\<lambda>r. cell T r ''id''"
  have T1: "?d1 ''queries'' = Some T1" by simp
  have ceq: "\<And>r c. cell T1 r c = cell T r c" using st(2) by (simp add: cell_def)
  have mr: "?m r" using st(6) by (simp add: sql_eq_def)
  have "\<forall>y \<in> set (filter ?m (rows T)). \<not> sql_le (?key r) (?key y)"
    using st(5) by simp
  then have ord: "order_by_desc ?key (filter ?m (rows T) @ [r]) = r # order_by_desc ?key (filter ?m (rows T))"
    by (rule order_by_desc_snoc)
  have lim: "\<And>xs. sql_limit (k + 1) (r # xs) = r # sql_limit k xs"
    using k by (simp add: sql_limit_def nat_add_distrib)
  have "list_history ?d1 u (k + 1)
      = Inr ((TextV tx, TextV now) # map (\<lambda>r. (cell T r ''text'', cell T r ''ts''))
             (sql_limit k (order_by_desc ?key (filter ?m (rows T)))))"
    unfolding list_history_eq [OF st(9) T1]
    by (simp add: ceq st(3) mr ord lim st(7,8))
  moreover have "query_rows ?d1 = query_rows d @ [r]"
    using T st(3) by (simp add: query_rows_def)
  moreover have "queries_room ?d1 m"
    using st(10) by (simp add: queries_room_def)
  ultimately show ?thesis
    using st(1,9) list_history_eq [OF ok T, of u k] by blast
qed

lemma log_all_history:
  "queries_ok d \<Longrightarrow> 0 \<le> k \<Longrightarrow> queries_room d (length es) \<Longrightarrow>
   \<exists>d1 new h. log_all d u es = Inr d1 \<and> queries_ok d1 \<and>
     query_rows d1 = query_rows d @ new \<and> length new = length es \<and>
     list_history d u k = Inr h \<and>
     list_history d1 u (int (length es) + k) = Inr (rev (map logged_pair es) @ h)"
proof (induction es arbitrary: d k)
  case Nil
  from Nil obtain T where T: "d ''queries'' = Some T"
    by (auto simp: queries_ok_def split: option.splits)
  show ?case using Nil list_history_eq [OF Nil(1) T, of u k] by simp
next
  case (Cons e es)
  obtain tx src params now where e: "e = (tx, src, params, now)" by (cases e) auto
  from Cons.prems(3) have room: "queries_room d (Suc (length es))" by simp
  from log_query_history [OF Cons.prems(1,2) room, of u tx src params now]
  obtain d' rid h r where s: "log_query d u tx src params now = Inr (d', rid)" "queries_ok d'"
    "query_rows d' = query_rows d @ [r]" "list_history d u k = Inr h"
    "list_history d' u (k + 1) = Inr ((TextV tx, TextV now) # h)" "queries_room d' (length es)"
    by blast
  have k1: "0 \<le> k + 1" using Cons.prems by simp
  from Cons.IH [OF s(2) k1 s(6)]
  obtain d1 new h' where i: "log_all d' u es = Inr d1" "queries_ok d1"
     "query_rows d1 = query_rows d' @ new" "length new = length es"
     "list_history d' u (k + 1) = Inr h'"
     "list_history d1 u (int (length es) + (k + 1)) = Inr (rev (map logged_pair es) @ h')"
    by blast
  have h': "h' = (TextV tx, TextV now) # h" using s(5) i(5) by simp
  have "log_all d u (e # es) = Inr d1"
    by (simp add: e s(1) i(1) ebind_def)
  moreover have "query_rows d1 = query_rows d @ (r # new)" "length (r # new) = length (e # es)"
    using s(3) i(3,4) by simp_all
  moreover have "list_history d1 u (int (length (e # es)) + k) = Inr (rev (map logged_pair (e # es)) @ h)"
  proof -
    have a: "int (length (e # es)) + k = int (length es) + (k + 1)" by simp
    have b: "rev (map logged_pair (e # es)) @ h = rev (map logged_pair es) @ h'"
      by (simp add: h' e logged_pair_def)
    show ?thesis
      unfolding a b by (rule i(6))
  qed
  ultimately show ?case using i(2) s(4) by blast
qed

text \<open>
  C5.  On a well-formed \<open>queries\<close> table that has a key left for each call, every one of
  a run of \<open>log_query\<close> calls for a user succeeds and adds one row after the rows that
  were there (none is changed), and \<open>list_history\<close> for that user, with the number of
  calls as its limit, then returns the (text, timestamp) pairs of exactly these calls,
  the latest call first.
\<close>

theorem log_query_then_list_history:
  "queries_ok d \<Longrightarrow> queries_room d (length es) \<Longrightarrow>
   \<exists>d1 new. log_all d u es = Inr d1 \<and>
     query_rows d1 = query_rows d @ new \<and> length new = length es \<and>
     list_history d1 u (int (length es)) = Inr (rev (map logged_pair es))"
proof -
  assume ok: "queries_ok d" and room: "queries_room d (length es)"
  from ok obtain T where T: "d ''queries'' = Some T"
    by (auto simp: queries_ok_def split: option.splits)
  have "list_history d u 0 = Inr []"
    by (simp add: list_history_eq [OF ok T] sql_limit_def)
  with log_all_history [OF ok _ room, of 0 u] show ?thesis by auto
qed

theorem log_query_then_list_history_witness:
  "queries_ok fresh_db \<and> queries_room fresh_db 2 \<and>
   (\<exists>d1 new.
      log_all fresh_db 7
        [(asc ''/report'', asc ''command'', None, asc ''2025-09-10 08:00:00''),
         (asc ''hello'', asc ''message'', None, asc ''2025-09-10 08:00:05'')] = Inr d1 \<and>
      query_rows d1 = query_rows fresh_db @ new \<and> length new = 2 \<and>
      list_history d1 7 2 =
        Inr [(TextV (asc ''hello''), TextV (asc ''2025-09-10 08:00:05'')),
             (TextV (asc ''/report''), TextV (asc ''2025-09-10 08:00:00''))])"
proof -
  have h: "queries_ok fresh_db"
    by (simp add: queries_ok_def fresh_db_def fresh_table_def target_columns_def queries_columns_def)
  have r: "queries_room fresh_db 2"
    by (simp add: queries_room_def room_for_def next_rowid_def last_rowid_def rowids_def MAX_ROWID_def
        fresh_db_def fresh_table_def)
  from log_query_then_list_history [OF h, of
      "[(asc ''/report'', asc ''command'', None, asc ''2025-09-10 08:00:00''),
        (asc ''hello'', asc ''message'', None, asc ''2025-09-10 08:00:05'')]" 7] r
  show ?thesis using h by (simp add: logged_pair_def numeral_2_eq_2)
qed

text \<open>When the largest key is taken, the insert of \<open>log_query\<close> raises.\<close>

lemma log_query_raises_when_full:
  "queries_ok [''queries'' \<mapsto> queries_full] \<and>
   log_query [''queries'' \<mapsto> queries_full] 7 (asc ''hi'') (asc ''message'') None (asc ''2025-09-10 08:00:05'')
     = Inl OperationalError"
  by (simp add: queries_ok_def log_query_def sql_insert_def insert_row_def new_rowid_def queries_full_def
      queries_columns_def ebind_def cell_def MAX_ROWID_def)

section \<open>Escaping\<close>

lemma char_codes [simp]:
  "(of_char (CHR ''&'') :: nat) = 38" "(of_char (CHR ''<'') :: nat) = 60" "(of_char (CHR ''>'') :: nat) = 62"
  by simp_all

lemma html_safe_plain: "c \<noteq> 38 \<Longrightarrow> c \<noteq> 60 \<Longrightarrow> c \<noteq> 62 \<Longrightarrow> html_safe (c # cs) = html_safe cs"
  by simp

lemma html_safe_entity:
  "html_safe (asc ''&amp;'' @ t) = html_safe t"
  "html_safe (asc ''&lt;'' @ t) = html_safe t"
  "html_safe (asc ''&gt;'' @ t) = html_safe t"
  "html_safe (asc ''&quot;'' @ t) = html_safe t"
  "html_safe (asc ''&#x27;'' @ t) = html_safe t"
  by (simp_all add: asc_def entity_bodies_def)

lemma html_safe_escape_append: "html_safe (escape s @ t) = html_safe t"
proof (induction s)
  case Nil
  then show ?case by (simp add: escape_def)
next
  case (Cons c s)
  have e: "escape (c # s) @ t = escape_char c @ (escape s @ t)"
    by (simp add: escape_def)
  show ?case
    unfolding e using Cons
    by (auto simp: escape_char_def html_safe_entity)
qed

lemma html_safe_escape: "html_safe (escape s)"
  using html_safe_escape_append [of s "[]"] by simp

lemma take_prefix_append: "take (length e) cs = e \<Longrightarrow> take (length e) (cs @ ys) = e"
  by (metis append_eq_conv_conj append_take_drop_id append.assoc)

lemma html_safe_append: "html_safe xs \<Longrightarrow> html_safe ys \<Longrightarrow> html_safe (xs @ ys)"
proof (induction xs)
  case Nil
  then show ?case by simp
next
  case (Cons c xs)
  have "list_ex (\<lambda>e. take (length e) xs = e) entity_bodies
      \<Longrightarrow> list_ex (\<lambda>e. take (length e) (xs @ ys) = e) entity_bodies"
    unfolding list_ex_iff using take_prefix_append by blast
  with Cons show ?case
    by (simp del: take_append split: if_splits)
qed

lemma html_safe_join:
  "list_all html_safe ls \<Longrightarrow> html_safe sep \<Longrightarrow> html_safe (py_join sep ls)"
  by (induction sep ls rule: py_join.induct) (simp_all add: html_safe_append)

section \<open>The adapters without a key\<close>

text \<open>
  C8. When the OpenRouter key is not set (\<open>None\<close> or the empty string), \<open>ask_neuron\<close> raises
  at its first statement, and so does \<open>get_news\<close> when the NewsAPI key is not set: the
  result is the error \<open>RuntimeError("... not set")\<close>, which is the configuration error of
  the specification, and the list of HTTP requests issued by the call is empty.
\<close>

theorem no_key_no_request:
  "(key_missing (OPENROUTER_API_KEY E) \<longrightarrow>
      ask_neuron E question = (Inl (RuntimeError (asc ''OPENROUTER_API_KEY not set'')), [])) \<and>
   (key_missing (NEWS_API_KEY E) \<longrightarrow>
      get_news E topic limit = (Inl (RuntimeError (asc ''NEWS_API_KEY not set'')), []))"
  by (simp add: ask_neuron_def get_news_def)

theorem no_key_no_request_witness:
  "key_missing (OPENROUTER_API_KEY no_keys_env) \<and>
   ask_neuron no_keys_env (asc ''hi'') = (Inl (RuntimeError (asc ''OPENROUTER_API_KEY not set'')), []) \<and>
   key_missing (NEWS_API_KEY no_keys_env) \<and>
   get_news no_keys_env (asc ''ai'') 5 = (Inl (RuntimeError (asc ''NEWS_API_KEY not set'')), [])"
proof -
  have h: "key_missing (OPENROUTER_API_KEY no_keys_env)" "key_missing (NEWS_API_KEY no_keys_env)"
    by (simp_all add: key_missing_def no_keys_env_def)
  from no_key_no_request [of no_keys_env "asc ''hi''" "asc ''ai''" 5] h
  show ?thesis by simp
qed

section \<open>What the handlers send as HTML\<close>

lemma escape_value_safe: "escape_value v = Inr t \<Longrightarrow> html_safe t"
  by (auto simp: escape_value_def html_safe_escape split: json.splits)

lemma ebind_Inr: "ebind m f = Inr y \<Longrightarrow> \<exists>x. m = Inr x \<and> f x = Inr y"
  by (cases m) (simp_all add: ebind_def)

lemma news_line_safe: "news_line a = Inr l \<Longrightarrow> html_safe l"
proof -
  assume "news_line a = Inr l"
  then obtain t title u urla where
      "escape_value (if truthy t then t else JStr NO_TITLE) = Inr title"
      "escape_value (if truthy u then u else JStr []) = Inr urla"
      "l = title @ [10] @ urla"
    unfolding news_line_def by (fastforce dest!: ebind_Inr)
  then show ?thesis
    by (simp add: escape_value_safe html_safe_append)
qed

lemma news_lines_safe: "news_lines as = Inr ls \<Longrightarrow> list_all html_safe ls"
proof (induction as arbitrary: ls)
  case Nil
  then show ?case by simp
next
  case (Cons a as)
  from Cons.prems obtain l ls' where "news_line a = Inr l" "news_lines as = Inr ls'" "ls = l # ls'"
    by (fastforce dest!: ebind_Inr)
  with Cons.IH show ?case by (simp add: news_line_safe)
qed

lemma get_news_safe: "fst (get_news E topic limit) = Inr ls \<Longrightarrow> list_all html_safe ls"
  by (auto simp: get_news_def Let_def split: if_splits dest!: ebind_Inr news_lines_safe)

lemma sent_html_send:
  "outbox st1 = outbox st \<Longrightarrow>
   sent_html st (x, send st1 m) = (if parse_mode m = Some (asc ''HTML'') then [out_text m] else [])"
  by (simp add: sent_html_def send_def)

lemma sent_html_none: "outbox st1 = outbox st \<Longrightarrow> sent_html st (x, st1) = []"
  by (simp add: sent_html_def)

lemma reply_plain [simp]: "parse_mode (reply_to m t kb) = None"
  by (simp add: reply_to_def)

lemma send_html_fields [simp]:
  "parse_mode (send_html m t) = Some (asc ''HTML'')" "out_text (send_html m t) = t"
  by (simp_all add: send_html_def)

lemma handle_ask_safe: "list_all html_safe (sent_html st (handle_ask E m now st))"
  by (auto simp: handle_ask_def Let_def sent_html_send sent_html_none escape_value_safe
      split: option.splits sum.splits prod.splits)

lemma handle_news_safe: "list_all html_safe (sent_html st (handle_news E m now st))"
  by (auto simp: handle_news_def Let_def sent_html_send sent_html_none html_safe_join
      split: option.splits sum.splits prod.splits dest!: get_news_safe)

lemma handle_start_sent:
  "sent_html st (handle_start m now st) = [] \<or>
   (\<exists>n. display_name (from_user m) = Some n \<and>
        sent_html st (handle_start m now st) = [START_A @ escape n @ START_B])"
  by (auto simp: handle_start_def sent_html_send sent_html_none split: option.splits sum.splits)

lemma handle_report_sent:
  "sent_html st (handle_report_cmd m now st) = [] \<or>
   (\<exists>df. fst (load_csv_safe (demo_file st)) = Inr df \<and>
         sent_html st (handle_report_cmd m now st) = [report_of df])"
  by (auto simp: handle_report_cmd_def Let_def generate_report_from_demo_def sent_html_send sent_html_none
      split: option.splits sum.splits prod.splits)

subsection \<open>The lines of the report\<close>

lemma fits_intro: "ok mid \<Longrightarrow> fits pre suf ok (pre @ mid @ suf)"
  by (simp add: fits_def)

lemma fits_intro0: "ok mid \<Longrightarrow> fits pre [] ok (pre @ mid)"
  using fits_intro [of ok mid pre "[]"] by simp

lemma dec_digits_digits: "list_all is_digit (dec_digits n)"
proof (induction n rule: dec_digits.induct)
  case (1 n)
  show ?case
  proof (cases "n < 10")
    case True
    then show ?thesis by (subst dec_digits.simps) (simp add: is_digit_def)
  next
    case False
    have "n mod 10 < 10" by simp
    then have "is_digit (48 + n mod 10)" unfolding is_digit_def by linarith
    with False 1 show ?thesis by (subst dec_digits.simps) simp
  qed
qed

lemma commas_number: "list_all (\<lambda>c. is_digit c \<or> c = 44 \<or> c = 45) ds
    \<Longrightarrow> list_all (\<lambda>c. is_digit c \<or> c = 44 \<or> c = 45) (commas ds)"
  by (induction ds rule: commas.induct) simp_all

lemma number_text_format: "number_text (format_thousands a)"
proof -
  have "list_all (\<lambda>c. is_digit c \<or> c = 44 \<or> c = 45) (dec_digits (nat \<bar>a\<bar>))"
    using dec_digits_digits [of "nat \<bar>a\<bar>"] unfolding list_all_iff by blast
  then have "list_all (\<lambda>c. is_digit c \<or> c = 44 \<or> c = 45) (rev (dec_digits (nat \<bar>a\<bar>)))"
    by simp
  then have "list_all (\<lambda>c. is_digit c \<or> c = 44 \<or> c = 45) (commas (rev (dec_digits (nat \<bar>a\<bar>))))"
    by (rule commas_number)
  then show ?thesis
    by (auto simp: number_text_def format_thousands_def list_all_iff)
qed

lemma top_values_safe: "list_all html_safe (top_values n cells)"
  by (simp add: top_values_def list_all_iff html_safe_escape)

lemma top_skills_safe: "list_all html_safe (top_skills cells)"
  by (simp add: top_skills_def list_all_iff html_safe_escape)

lemma labelled_ok:
  "list_all html_safe vs \<Longrightarrow> label \<in> {CITIES_LABEL, TITLES_LABEL, SKILLS_LABEL} \<Longrightarrow>
   list_all report_line_ok (labelled label vs)"
proof -
  assume vs: "list_all html_safe vs" and l: "label \<in> {CITIES_LABEL, TITLES_LABEL, SKILLS_LABEL}"
  have "html_safe (asc '', '')" by (simp add: asc_def)
  with vs have "html_safe (py_join (asc '', '') vs)" by (simp add: html_safe_join)
  then have "fits label [] html_safe (label @ py_join (asc '', '') vs)" by (rule fits_intro0)
  with l show ?thesis by (auto simp: labelled_def report_line_ok_def)
qed

lemma report_parts_ok: "report_parts df = Inr parts \<Longrightarrow> list_all report_line_ok parts"
proof -
  assume "report_parts df = Inr parts"
  then obtain avg where p: "parts = [REPORT_HEADER]
               @ (case avg of None \<Rightarrow> [] | Some a \<Rightarrow> [SALARY_LABEL @ format_thousands a @ SALARY_END])
               @ (case map_of df (asc ''city'') of None \<Rightarrow> [] | Some cells \<Rightarrow> labelled CITIES_LABEL (top_values 5 cells))
               @ (case map_of df (asc ''title'') of None \<Rightarrow> [] | Some cells \<Rightarrow> labelled TITLES_LABEL (top_values 5 cells))
               @ (case map_of df (asc ''skills'') of None \<Rightarrow> [] | Some cells \<Rightarrow> labelled SKILLS_LABEL (top_skills cells))
               @ [REPORT_FOOTER]"
    unfolding report_parts_def by (auto dest!: ebind_Inr)
  have s: "\<And>a. report_line_ok (SALARY_LABEL @ format_thousands a @ SALARY_END)"
    by (simp add: report_line_ok_def fits_intro number_text_format)
  have h: "report_line_ok REPORT_HEADER" and f: "report_line_ok REPORT_FOOTER"
    by (simp_all add: report_line_ok_def)
  have c: "\<And>cells. list_all report_line_ok (labelled CITIES_LABEL (top_values 5 cells))"
    by (rule labelled_ok) (simp_all add: top_values_safe)
  have t: "\<And>cells. list_all report_line_ok (labelled TITLES_LABEL (top_values 5 cells))"
    by (rule labelled_ok) (simp_all add: top_values_safe)
  have k: "\<And>cells. list_all report_line_ok (labelled SKILLS_LABEL (top_skills cells))"
    by (rule labelled_ok) (simp_all add: top_skills_safe)
  show ?thesis
    unfolding p
    by (simp add: h f s c t k split: option.splits)
qed

text \<open>
  C9. Whatever the user, the OpenRouter answer, the NewsAPI articles and the demo file
  contain, a text sent with \<open>parse_mode="HTML"\<close> has them escaped.  \<open>escape\<close> leaves no raw
  \<open><\<close>, \<open>>\<close> or \<open>&\<close>.  Only four handlers send HTML.  What \<open>handle_ask\<close> and \<open>handle_news\<close>
  send is safe as a whole.  \<open>handle_start\<close> sends its fixed text around the escaped name
  of the user.  \<open>handle_report_cmd\<close> sends the report of the loaded data frame, which is
  a fixed message or the report lines joined by line breaks, and each line is the fixed
  header or footer, the salary label around digits, commas and a sign, or a fixed label
  followed by escaped values joined by \<open>", "\<close>.
\<close>

theorem html_replies_are_escaped:
  "html_safe (escape s) \<and>
   list_all html_safe (sent_html st (handle_ask E m now st)) \<and>
   list_all html_safe (sent_html st (handle_news E m now st)) \<and>
   (sent_html st (handle_start m now st) = [] \<or>
    (\<exists>n. display_name (from_user m) = Some n \<and>
         sent_html st (handle_start m now st) = [START_A @ escape n @ START_B])) \<and>
   (sent_html st (handle_report_cmd m now st) = [] \<or>
    (\<exists>df. fst (load_csv_safe (demo_file st)) = Inr df \<and>
          sent_html st (handle_report_cmd m now st) = [report_of df])) \<and>
   (case report_parts df of
      Inl e \<Rightarrow> report_of df = NO_DATA \<or> report_of df = REPORT_ERROR
    | Inr parts \<Rightarrow> (report_of df = NO_DATA \<or> report_of df = py_join [10] parts) \<and>
                   list_all report_line_ok parts)"
proof -
  have "case report_parts df of
      Inl e \<Rightarrow> report_of df = NO_DATA \<or> report_of df = REPORT_ERROR
    | Inr parts \<Rightarrow> (report_of df = NO_DATA \<or> report_of df = py_join [10] parts) \<and>
                   list_all report_line_ok parts"
    by (auto simp: report_of_def report_parts_ok split: sum.splits)
  then show ?thesis
    using html_safe_escape handle_ask_safe handle_news_safe handle_start_sent handle_report_sent
    by (intro conjI)
qed

theorem html_replies_are_escaped_witness:
  "html_safe (escape (asc ''<b>Tom & Jerry</b>'')) \<and>
   escape (asc ''<b>Tom & Jerry</b>'') = asc ''&lt;b&gt;Tom &amp; Jerry&lt;/b&gt;'' \<and>
   \<not> html_safe (asc ''<b>Tom & Jerry</b>'') \<and>
   list_all html_safe (sent_html fresh_state (handle_ask no_keys_env preset_del_x [] fresh_state)) \<and>
   list_all html_safe (sent_html fresh_state (handle_news no_keys_env preset_del_x [] fresh_state))"
proof -
  have "escape (asc ''<b>Tom & Jerry</b>'') = asc ''&lt;b&gt;Tom &amp; Jerry&lt;/b&gt;''"
    by (simp add: escape_def escape_char_def asc_def)
  moreover have "\<not> html_safe (asc ''<b>Tom & Jerry</b>'')"
    by (simp add: asc_def entity_bodies_def)
  ultimately show ?thesis
    using html_replies_are_escaped [of "asc ''<b>Tom & Jerry</b>''" fresh_state no_keys_env preset_del_x "[]" "[]"]
    by simp
qed

section \<open>Deleting a preset that is not there\<close>

lemma filter_none_out: "list_all (\<lambda>r. \<not> P r) xs \<Longrightarrow> filter (\<lambda>r. \<not> P r) xs = xs"
  by (induction xs) simp_all

lemma delete_absent_preset:
  assumes "presets_ok d" "no_matching_preset d u n"
  shows "delete_preset_db d u n = Inr d"
proof -
  from assms(1) obtain T where T: "d ''presets'' = Some T"
    by (auto simp: presets_ok_def split: option.splits)
  from assms(2) T have "filter (\<lambda>r. \<not> preset_matches T u n r) (rows T) = rows T"
    by (simp add: no_matching_preset_def filter_none_out)
  then have "T\<lparr>rows := filter (\<lambda>r. \<not> preset_matches T u n r) (rows T)\<rparr> = T" by simp
  with delete_preset_db_eq [OF assms(1) T, of u n] T show ?thesis
    by (simp add: map_upd_triv)
qed

lemma split_x: "py_split 1 (asc ''/preset_del x'') = [asc ''/preset_del'', asc ''x'']"
  by (simp add: asc_def isspace_def)

text \<open>
  C10. \<open>handle_preset_del\<close> on a message \<open>/preset_del name\<close>, with the \<open>presets\<close> and
  \<open>queries\<close> tables as the schema has them and a key left in \<open>queries\<close> for the row of
  the log: no exception leaves the handler, the one
  message it sends is the reply that the preset was deleted, and one row with the user
  and the text \<open>/preset_del name\<close> is added to \<open>queries\<close>, whether or not a preset of that
  name exists; when no row of \<open>presets\<close> has this user and name, the \<open>presets\<close> table
  stays as it was.
\<close>

theorem preset_del_of_absent_name:
  assumes "presets_ok (database st)" and "queries_ok (database st)"
    and "queries_room (database st) 1"
    and "msg_text m = Some t" and "py_split 1 t = [cmd, name]"
  shows "\<exists>st' T r.
     handle_preset_del m now st = (None, st') \<and>
     outbox st' = outbox st @ [reply_to m (DELETED_A @ escape name @ DELETED_B) False] \<and>
     database st ''queries'' = Some T \<and>
     query_rows (database st') = query_rows (database st) @ [r] \<and>
     cell T r ''user_id'' = IntV (uid (from_user m)) \<and>
     cell T r ''text'' = TextV (asc ''/preset_del '' @ name) \<and>
     (no_matching_preset (database st) (uid (from_user m)) name \<longrightarrow>
        database st' ''presets'' = database st ''presets'')"
proof -
  let ?d = "database st" and ?u = "uid (from_user m)"
  from assms(1) obtain P where P: "?d ''presets'' = Some P"
    by (auto simp: presets_ok_def split: option.splits)
  from assms(2) obtain T where T: "?d ''queries'' = Some T"
    by (auto simp: queries_ok_def split: option.splits)
  define d1 where "d1 = ?d(''presets'' \<mapsto> P\<lparr>rows := filter (\<lambda>r. \<not> preset_matches P ?u name r) (rows P)\<rparr>)"
  have del: "delete_preset_db ?d ?u name = Inr d1"
    unfolding d1_def by (rule delete_preset_db_eq [OF assms(1) P])
  have T1: "d1 ''queries'' = Some T" using T by (simp add: d1_def)
  have ok1: "queries_ok d1" using assms(2) T by (simp add: queries_ok_def d1_def)
  have room: "room_for (Suc 0) T" using assms(3) T by (simp add: queries_room_def)
  from log_query_step [OF ok1 T1 room, of ?u "asc ''/preset_del '' @ name" "asc ''command''" None now]
  obtain T' r rid where
    lq: "log_query d1 ?u (asc ''/preset_del '' @ name) (asc ''command'') None now = Inr (d1(''queries'' \<mapsto> T'), rid)"
    and rs: "rows T' = rows T @ [r]"
    and cu: "cell T r ''user_id'' = IntV ?u"
    and ct: "cell T r ''text'' = TextV (asc ''/preset_del '' @ name)"
    by blast
  define st' where "st' = send (st\<lparr>database := d1(''queries'' \<mapsto> T')\<rparr>)
                             (reply_to m (DELETED_A @ escape name @ DELETED_B) False)"
  have arg: "command_argument m = Inr name"
    using assms(4,5) by (simp add: command_argument_def)
  have run: "handle_preset_del m now st = (None, st')"
    by (simp add: handle_preset_del_def arg del lq st'_def)
  have ob: "outbox st' = outbox st @ [reply_to m (DELETED_A @ escape name @ DELETED_B) False]"
    by (simp add: st'_def send_def)
  have db: "database st' = d1(''queries'' \<mapsto> T')"
    by (simp add: st'_def send_def)
  have qr: "query_rows (database st') = query_rows (database st) @ [r]"
    using T rs by (simp add: db query_rows_def)
  have keep: "no_matching_preset ?d ?u name \<longrightarrow> database st' ''presets'' = ?d ''presets''"
  proof
    assume "no_matching_preset ?d ?u name"
    with delete_absent_preset [OF assms(1)] del have "d1 = ?d" by simp
    then show "database st' ''presets'' = ?d ''presets''" by (simp add: db)
  qed
  from run ob T qr cu ct keep
  have "handle_preset_del m now st = (None, st') \<and>
     outbox st' = outbox st @ [reply_to m (DELETED_A @ escape name @ DELETED_B) False] \<and>
     database st ''queries'' = Some T \<and>
     query_rows (database st') = query_rows (database st) @ [r] \<and>
     cell T r ''user_id'' = IntV (uid (from_user m)) \<and>
     cell T r ''text'' = TextV (asc ''/preset_del '' @ name) \<and>
     (no_matching_preset (database st) (uid (from_user m)) name \<longrightarrow>
        database st' ''presets'' = database st ''presets'')"
    by (intro conjI)
  then show ?thesis by (intro exI)
qed

theorem preset_del_of_absent_name_witness:
  "presets_ok (database fresh_state) \<and> queries_ok (database fresh_state) \<and>
   queries_room (database fresh_state) 1 \<and>
   msg_text preset_del_x = Some (asc ''/preset_del x'') \<and>
   py_split 1 (asc ''/preset_del x'') = [asc ''/preset_del'', asc ''x''] \<and>
   no_matching_preset (database fresh_state) (uid (from_user preset_del_x)) (asc ''x'') \<and>
   (\<exists>st'. handle_preset_del preset_del_x (asc ''2025-09-10 08:00:00'') fresh_state = (None, st') \<and>
         outbox st' = [reply_to preset_del_x (DELETED_A @ escape (asc ''x'') @ DELETED_B) False] \<and>
         length (query_rows (database st')) = 1 \<and>
         database st' ''presets'' = database fresh_state ''presets'')"
proof -
  have h1: "presets_ok (database fresh_state)"
    by (simp add: fresh_state_def presets_ok_def fresh_db_def fresh_table_def target_columns_def presets_columns_def)
  have h2: "queries_ok (database fresh_state)"
    by (simp add: fresh_state_def queries_ok_def fresh_db_def fresh_table_def target_columns_def queries_columns_def)
  have hr: "queries_room (database fresh_state) 1"
    by (simp add: fresh_state_def queries_room_def room_for_def next_rowid_def last_rowid_def rowids_def
        MAX_ROWID_def fresh_db_def fresh_table_def)
  have h3: "msg_text preset_del_x = Some (asc ''/preset_del x'')"
    by (simp add: preset_del_x_def)
  have h4: "py_split 1 (asc ''/preset_del x'') = [asc ''/preset_del'', asc ''x'']"
    by (rule split_x)
  have h5: "no_matching_preset (database fresh_state) (uid (from_user preset_del_x)) (asc ''x'')"
    by (simp add: no_matching_preset_def fresh_state_def fresh_db_def fresh_table_def)
  have q: "query_rows (database fresh_state) = []" and o: "outbox fresh_state = []"
    by (simp_all add: query_rows_def fresh_state_def fresh_db_def fresh_table_def)
  from preset_del_of_absent_name [OF h1 h2 hr h3 h4, of "asc ''2025-09-10 08:00:00''"] h5 q o
  have "\<exists>st'. handle_preset_del preset_del_x (asc ''2025-09-10 08:00:00'') fresh_state = (None, st') \<and>
         outbox st' = [reply_to preset_del_x (DELETED_A @ escape (asc ''x'') @ DELETED_B) False] \<and>
         length (query_rows (database st')) = 1 \<and>
         database st' ''presets'' = database fresh_state ''presets''"
    by auto
  with h1 h2 hr h3 h4 h5 show ?thesis by (intro conjI)
qed

section \<open>The report\<close>

text \<open>
  C4. A demo file that holds the byte \<open>0x98\<close>, which is neither valid UTF-8 nor a
  character of cp1251: the first \<open>read_csv\<close> raises \<open>UnicodeDecodeError\<close>, the second
  one, run inside the handler of the first, raises it again, and the exception leaves
  \<open>load_csv_safe\<close> and then \<open>generate_report_from_demo\<close>, whose \<open>try\<close> starts after the
  call.
\<close>

theorem report_raises_on_undecodable_file:
  "generate_report_from_demo (Some (asc ''city'' @ [10, 152, 10]))
     = (Inl UnicodeDecodeError, Some (asc ''city'' @ [10, 152, 10]))"
  by (simp add: generate_report_from_demo_def load_csv_safe_def ensure_demo_csv_def read_csv_def
      decode_def asc_def cp1251_decode_byte_def cp1251_high_def)

subsection \<open>The report of the sample rows\<close>

lemma utf8_char1: "c < 128 \<Longrightarrow> utf8_decode (utf8_encode_char c @ bs) = map_option ((#) c) (utf8_decode bs)"
  by (simp add: utf8_encode_char_def)

lemma utf8_char2:
  assumes "128 \<le> c" "c < 2048"
  shows "utf8_decode (utf8_encode_char c @ bs) = map_option ((#) c) (utf8_decode bs)"
proof -
  have a: "2 \<le> c div 64" "c div 64 < 32" using assms by auto
  have b: "c div 64 * 64 + c mod 64 = c" by simp
  have m: "c mod 64 < 64" by simp
  have e: "utf8_encode_char c = [192 + c div 64, 128 + c mod 64]"
    using assms by (simp add: utf8_encode_char_def)
  show ?thesis
    unfolding e using a m by (simp add: is_cont_def b)
qed

lemma div_mod_scaled: "(q::nat) div 64 * (64 * k) + q mod 64 * k = q * k"
proof -
  have "q * k = (q div 64 * 64 + q mod 64) * k" by simp
  also have "\<dots> = q div 64 * (64 * k) + q mod 64 * k"
    by (simp only: add_mult_distrib mult.assoc)
  finally show ?thesis by simp
qed

lemma split3: "(c::nat) div 4096 * 4096 + (c div 64) mod 64 * 64 + c mod 64 = c"
proof -
  have q: "c div 4096 = c div 64 div 64" by (simp add: div_mult2_eq [symmetric])
  have "c div 64 div 64 * 4096 + c div 64 mod 64 * 64 = c div 64 * 64"
    using div_mod_scaled [of "c div 64" 64] by simp
  then show ?thesis unfolding q by simp
qed

lemma split4: "(c::nat) div 262144 * 262144 + (c div 4096) mod 64 * 4096 + (c div 64) mod 64 * 64 + c mod 64 = c"
proof -
  have q: "c div 262144 = c div 4096 div 64" by (simp add: div_mult2_eq [symmetric])
  have "c div 4096 div 64 * 262144 + c div 4096 mod 64 * 4096 = c div 4096 * 4096"
    using div_mod_scaled [of "c div 4096" 4096] by simp
  then have "c div 262144 * 262144 + (c div 4096) mod 64 * 4096 = c div 4096 * 4096"
    unfolding q .
  then show ?thesis using split3 [of c] by simp
qed

lemma utf8_char3:
  assumes "2048 \<le> c" "c < 65536" "\<not> (55296 \<le> c \<and> c < 57344)"
  shows "utf8_decode (utf8_encode_char c @ bs) = map_option ((#) c) (utf8_decode bs)"
proof -
  have a: "c div 4096 < 16" using assms by auto
  have m: "c mod 64 < 64" "(c div 64) mod 64 < 64" by simp_all
  have e: "utf8_encode_char c = [224 + c div 4096, 128 + (c div 64) mod 64, 128 + c mod 64]"
    using assms by (simp add: utf8_encode_char_def)
  show ?thesis
    unfolding e using assms a m by (simp add: is_cont_def split3 Let_def)
qed

lemma utf8_char4:
  assumes "65536 \<le> c" "c < 1114112"
  shows "utf8_decode (utf8_encode_char c @ bs) = map_option ((#) c) (utf8_decode bs)"
proof -
  have a: "c div 262144 < 5" using assms by auto
  have m: "c mod 64 < 64" "(c div 64) mod 64 < 64" "(c div 4096) mod 64 < 64" by simp_all
  have e: "utf8_encode_char c
      = [240 + c div 262144, 128 + (c div 4096) mod 64, 128 + (c div 64) mod 64, 128 + c mod 64]"
    using assms by (simp add: utf8_encode_char_def)
  show ?thesis
    unfolding e using assms a m by (simp add: is_cont_def split4 Let_def)
qed

lemma utf8_char:
  "scalar c \<Longrightarrow> utf8_decode (utf8_encode_char c @ bs) = map_option ((#) c) (utf8_decode bs)"
  using utf8_char1 [of c bs] utf8_char2 [of c bs] utf8_char3 [of c bs] utf8_char4 [of c bs]
  unfolding scalar_def by linarith

lemma utf8_roundtrip: "list_all scalar s \<Longrightarrow> utf8_decode (utf8_encode s) = Some s"
  by (induction s) (simp_all add: utf8_encode_def utf8_char)

lemma sample_text: "csv_rows sample = demo_text"
  by (simp add: csv_rows_def sample_def demo_text_def csv_field_def str_cell_def needs_quotes_def
      str_int_def dec_digits.simps asc_def Let_def)

lemma demo_text_scalar: "list_all scalar demo_text"
  by (simp add: demo_text_def scalar_def asc_def)

lemma demo_lines:
  "text_lines demo_text =
     [asc ''title,city,salary,skills,date'',
      asc ''Python developer,'' @ MOSCOW @ asc '',180000,Django;SQL;Docker,2025-09-10'',
      asc ''Data analyst,'' @ SAINT_PETERSBURG @ asc '',160000,SQL;Tableau;Python,2025-09-12'',
      asc ''SMM manager,'' @ MOSCOW @ asc '',120000,Content;UGC;Short video,2025-09-14'']"
  by (simp add: text_lines_def demo_text_def chomp_def asc_def MOSCOW_def SAINT_PETERSBURG_def)

lemma demo_parsed: "parse_csv demo_text = Inr demo_frame"
  unfolding parse_csv_def demo_lines
  by (simp add: demo_frame_def Let_def pad_def typed_column_def na_words_def int_of_str_def
      is_digit_def nat_of_digits_def asc_def MOSCOW_def SAINT_PETERSBURG_def upt_rec)

lemma demo_loaded: "load_csv_safe None = (Inr demo_frame, Some (utf8_encode demo_text))"
  by (simp add: load_csv_safe_def ensure_demo_csv_def sample_text read_csv_def decode_def
      utf8_roundtrip [OF demo_text_scalar] demo_parsed Let_def)

lemma demo_mean:
  "ebind (astype_float [IntC 180000, IntC 160000, IntC 120000]) (\<lambda>vs. Inr (rounded_mean vs)) = Inr (Some 153333)"
  by (simp add: ebind_def rounded_mean_def round_div_def Let_def)

lemma demo_salary: "format_thousands 153333 = asc ''153,333''"
  by (simp add: format_thousands_def dec_digits.simps asc_def)

lemma demo_cities:
  "value_counts [StrC MOSCOW, StrC SAINT_PETERSBURG, StrC MOSCOW] = [(StrC MOSCOW, 2), (StrC SAINT_PETERSBURG, 1)]"
  by (simp add: value_counts_def MOSCOW_def SAINT_PETERSBURG_def)

lemma demo_tokens_eq:
  "split_on 59 (py_join [59] [asc ''Django;SQL;Docker'', asc ''SQL;Tableau;Python'',
      asc ''Content;UGC;Short video'']) = demo_tokens"
  by (simp add: demo_tokens_def asc_def)

lemma demo_skill_tokens:
  "skill_tokens [StrC (asc ''Django;SQL;Docker''), StrC (asc ''SQL;Tableau;Python''),
      StrC (asc ''Content;UGC;Short video'')] = demo_tokens"
  unfolding demo_tokens_eq [symmetric]
  by (simp add: skill_tokens_def dropna_def is_float_column_def str_cell_def)

lemma demo_skill_counts:
  "value_counts demo_tokens =
     [(asc ''SQL'', 2), (asc ''Django'', 1), (asc ''Docker'', 1), (asc ''Tableau'', 1), (asc ''Python'', 1),
      (asc ''Content'', 1), (asc ''UGC'', 1), (asc ''Short video'', 1)]"
  by (simp add: value_counts_def demo_tokens_def asc_def)

lemma demo_title_counts:
  "value_counts demo_titles = map (\<lambda>c. (c, 1)) demo_titles"
  by (simp add: value_counts_def demo_titles_def asc_def)

lemma escape_plain: "list_all (\<lambda>c. c \<noteq> 38 \<and> c \<noteq> 60 \<and> c \<noteq> 62 \<and> c \<noteq> 34 \<and> c \<noteq> 39) s \<Longrightarrow> escape s = s"
  by (induction s) (simp_all add: escape_def escape_char_def)

lemma value_counts_set: "set (value_counts xs) = (\<lambda>x. (x, count_list xs x)) ` set xs"
  by (simp add: value_counts_def)

lemma value_counts_counts: "map snd (value_counts xs) = map (count_list xs) (map fst (value_counts xs))"
proof -
  have "\<forall>p \<in> set (value_counts xs). snd p = count_list xs (fst p)"
    by (auto simp: value_counts_set)
  then show ?thesis by (simp add: list_eq_iff_nth_eq)
qed

lemma value_counts_values: "set (map fst (value_counts xs)) = set xs"
  by (force simp: value_counts_set)

lemma demo_parts:
  "report_parts demo_frame =
     Inr [REPORT_HEADER,
          SALARY_LABEL @ asc ''153,333'' @ SALARY_END,
          CITIES_LABEL @ MOSCOW @ asc '', '' @ SAINT_PETERSBURG,
          TITLES_LABEL @ py_join (asc '', '') (top_values 5 demo_titles),
          SKILLS_LABEL @ py_join (asc '', '') (map (\<lambda>p. escape (fst p)) (take 10 (value_counts demo_tokens))),
          REPORT_FOOTER]"
proof -
  have sal: "map_of demo_frame (asc ''salary'') = Some [IntC 180000, IntC 160000, IntC 120000]"
    and cit: "map_of demo_frame (asc ''city'') = Some [StrC MOSCOW, StrC SAINT_PETERSBURG, StrC MOSCOW]"
    and tit: "map_of demo_frame (asc ''title'') = Some demo_titles"
    and ski: "map_of demo_frame (asc ''skills'') = Some [StrC (asc ''Django;SQL;Docker''),
         StrC (asc ''SQL;Tableau;Python''), StrC (asc ''Content;UGC;Short video'')]"
    by (simp_all add: demo_frame_def demo_titles_def MOSCOW_def SAINT_PETERSBURG_def asc_def)
  have c: "top_values 5 [StrC MOSCOW, StrC SAINT_PETERSBURG, StrC MOSCOW] = [MOSCOW, SAINT_PETERSBURG]"
  proof -
    have "escape MOSCOW = MOSCOW" "escape SAINT_PETERSBURG = SAINT_PETERSBURG"
      by (simp_all add: escape_plain MOSCOW_def SAINT_PETERSBURG_def)
    then show ?thesis
      unfolding top_values_def
      by (simp add: dropna_def demo_cities is_float_column_def str_cell_def)
  qed
  have t: "top_values 5 demo_titles \<noteq> []"
    by (simp add: top_values_def dropna_def demo_titles_def demo_title_counts [unfolded demo_titles_def])
  have s: "top_skills [StrC (asc ''Django;SQL;Docker''), StrC (asc ''SQL;Tableau;Python''),
         StrC (asc ''Content;UGC;Short video'')]
      = map (\<lambda>p. escape (fst p)) (take 10 (value_counts demo_tokens))"
    by (simp add: top_skills_def demo_skill_tokens)
  have s0: "map (\<lambda>p. escape (fst p)) (take 10 (value_counts demo_tokens)) \<noteq> []"
    by (simp add: demo_skill_counts)
  have m: "rounded_mean [Some 180000, Some 160000, Some 120000] = Some 153333"
    by (simp add: rounded_mean_def round_div_def Let_def)
  have s1: "value_counts demo_tokens \<noteq> []"
    by (simp add: demo_skill_counts)
  show ?thesis
    unfolding report_parts_def sal cit tit ski
    by (simp add: m demo_salary c s labelled_def t s1 ebind_def)
qed

text \<open>
  C1. With no demo file, \<open>generate_report_from_demo\<close> writes the three sample rows, reads
  them back and returns the report: the header, the salary line with the rounded mean
  \<open>153333\<close> of \<open>180000\<close>, \<open>160000\<close> and \<open>120000\<close> written \<open>153,333\<close>, the line of the cities
  with Moscow (two rows) before Saint Petersburg (one row), the line of the titles, the
  line of the skills and the footer.  The skills line lists the tokens of the skills
  cells, joined by \<open>;\<close> and split at \<open>;\<close>, by their number of occurrences in all rows:
  \<open>value_counts\<close> pairs each value with its number of occurrences in the list, and \<open>SQL\<close>,
  which occurs twice, comes first.
\<close>

theorem report_on_default_dataset:
  "generate_report_from_demo None =
     (Inr (py_join [10]
        [REPORT_HEADER,
         SALARY_LABEL @ asc ''153,333'' @ SALARY_END,
         CITIES_LABEL @ MOSCOW @ asc '', '' @ SAINT_PETERSBURG,
         TITLES_LABEL @ py_join (asc '', '') (top_values 5 demo_titles),
         SKILLS_LABEL @ py_join (asc '', '') (map (\<lambda>p. escape (fst p)) (take 10 (value_counts demo_tokens))),
         REPORT_FOOTER]),
      Some (utf8_encode (csv_rows sample))) \<and>
   round_div (180000 + 160000 + 120000) 3 = 153333 \<and>
   value_counts [StrC MOSCOW, StrC SAINT_PETERSBURG, StrC MOSCOW]
     = [(StrC MOSCOW, 2), (StrC SAINT_PETERSBURG, 1)] \<and>
   split_on 59 (py_join [59] [asc ''Django;SQL;Docker'', asc ''SQL;Tableau;Python'',
      asc ''Content;UGC;Short video'']) = demo_tokens \<and>
   hd (value_counts demo_tokens) = (asc ''SQL'', 2) \<and>
   map snd (value_counts xs) = map (count_list xs) (map fst (value_counts xs)) \<and>
   set (map fst (value_counts xs)) = set xs"
proof -
  have ne: "\<not> df_empty demo_frame"
    by (simp add: df_empty_def demo_frame_def)
  have "generate_report_from_demo None =
     (Inr (py_join [10]
        [REPORT_HEADER,
         SALARY_LABEL @ asc ''153,333'' @ SALARY_END,
         CITIES_LABEL @ MOSCOW @ asc '', '' @ SAINT_PETERSBURG,
         TITLES_LABEL @ py_join (asc '', '') (top_values 5 demo_titles),
         SKILLS_LABEL @ py_join (asc '', '') (map (\<lambda>p. escape (fst p)) (take 10 (value_counts demo_tokens))),
         REPORT_FOOTER]),
      Some (utf8_encode (csv_rows sample)))"
    unfolding generate_report_from_demo_def demo_loaded
    by (simp add: report_of_def ne demo_parts sample_text)
  moreover have "round_div (180000 + 160000 + 120000) 3 = 153333"
    by (simp add: round_div_def Let_def)
  moreover have "hd (value_counts demo_tokens) = (asc ''SQL'', 2)"
    by (simp add: demo_skill_counts)
  ultimately show ?thesis
    using demo_cities demo_tokens_eq value_counts_counts [of xs] value_counts_values [of xs]
    by (intro conjI)
qed


end
